theory Spec2Isabelle
  imports Main
begin

unbundle bit_operations_syntax

section \<open>Strings, paths and JavaScript maps\<close>

text \<open>
  \<^verbatim>\<open>normalizeVaultRelative(p) = p.replace(/\\/g, "/").replace(/^\/+/, "")\<close>:
  every backslash becomes a slash, then the leading slashes are dropped.
\<close>

definition normalizeVaultRelative :: "string \<Rightarrow> string" where
  "normalizeVaultRelative p =
     dropWhile (\<lambda>c. c = CHR ''/'') (map (\<lambda>c. if c = CHR 0x5C then CHR ''/'' else c) p)"

text \<open>
  \<^verbatim>\<open>p.split("/").pop() || p\<close>: the text after the last slash, and the whole path
  when that text is empty (the empty string is falsy).
\<close>

definition lastSegment :: "string \<Rightarrow> string" where
  "lastSegment p = rev (takeWhile (\<lambda>c. c \<noteq> CHR ''/'') (rev p))"

definition stubName :: "string \<Rightarrow> string" where
  "stubName p = (if lastSegment p = [] then p else lastSegment p)"

text \<open>
  A JavaScript \<^verbatim>\<open>Map\<close> keeps its entries in insertion order: \<^verbatim>\<open>set\<close> on a key
  that is present replaces the value where it stands, on a new key it appends;
  \<^verbatim>\<open>delete\<close> removes the entry. The model is an association list.
\<close>

type_synonym ('k, 'v) jsmap = "('k \<times> 'v) list"

definition map_get :: "('k, 'v) jsmap \<Rightarrow> 'k \<Rightarrow> 'v option" where
  "map_get m k = map_of m k"

definition map_has :: "('k, 'v) jsmap \<Rightarrow> 'k \<Rightarrow> bool" where
  "map_has m k = (map_of m k \<noteq> None)"

fun map_set :: "('k, 'v) jsmap \<Rightarrow> 'k \<Rightarrow> 'v \<Rightarrow> ('k, 'v) jsmap" where
  "map_set [] k v = [(k, v)]"
| "map_set ((k', v') # m) k v = (if k' = k then (k, v) # m else (k', v') # map_set m k v)"

definition map_delete :: "('k, 'v) jsmap \<Rightarrow> 'k \<Rightarrow> ('k, 'v) jsmap" where
  "map_delete m k = filter (\<lambda>e. fst e \<noteq> k) m"

section \<open>ModuleFileAccessNode: the storage adapter\<close>

text \<open>
  What Node's \<^verbatim>\<open>fs.stat\<close> returns: the kind of the node (\<^verbatim>\<open>isFile()\<close>,
  \<^verbatim>\<open>isDirectory()\<close>), its size and its times. A failing call throws an error code.
\<close>

datatype errno = ENOENT | ENOTDIR | EACCES | EXDEV | EIO

datatype node_kind = RegularFile | Directory | OtherNode

record stats =
  nodeKind :: node_kind
  st_size :: nat
  st_ctimeMs :: int
  st_mtimeMs :: int

definition isFile :: "stats \<Rightarrow> bool" where
  "isFile st = (nodeKind st = RegularFile)"

definition isDirectory :: "stats \<Rightarrow> bool" where
  "isDirectory st = (nodeKind st = Directory)"

text \<open>
  An entry that \<^verbatim>\<open>readdirSync(dir, { withFileTypes: true })\<close> returns: the name as it
  stands in the directory, and the kind that \<^verbatim>\<open>isFile()\<close> and \<^verbatim>\<open>isDirectory()\<close> report.
\<close>

record dirent =
  d_name :: string
  d_kind :: node_kind

text \<open>
  The functions of Node's library that the adapter calls (\<^verbatim>\<open>node:fs\<close>,
  \<^verbatim>\<open>node:path\<close>, \<^verbatim>\<open>node:crypto\<close>) are parameters: \<open>'fs\<close> is the state of the
  disk, a call that throws returns \<open>Inl\<close>. \<open>fs_rm\<close> takes the path and the
  \<^verbatim>\<open>recursive\<close> option (\<^verbatim>\<open>force\<close> is always set by the callers); \<open>fs_mkdir\<close>
  is called with \<^verbatim>\<open>recursive: true\<close>; \<open>fs_readdir\<close> is \<^verbatim>\<open>readdirSync\<close> with
  \<^verbatim>\<open>withFileTypes: true\<close>; \<open>sha1_hex\<close> is
  \<^verbatim>\<open>createHash("sha1").update(s).digest("hex")\<close>.
\<close>

record 'fs node_api =
  fs_stat :: "'fs \<Rightarrow> string \<Rightarrow> errno + stats"
  fs_readdir :: "'fs \<Rightarrow> string \<Rightarrow> errno + dirent list"
  fs_rm :: "'fs \<Rightarrow> string \<Rightarrow> bool \<Rightarrow> errno + 'fs"
  fs_rename :: "'fs \<Rightarrow> string \<Rightarrow> string \<Rightarrow> errno + 'fs"
  fs_mkdir :: "'fs \<Rightarrow> string \<Rightarrow> errno + 'fs"
  path_join :: "string \<Rightarrow> string \<Rightarrow> string"
  path_basename :: "string \<Rightarrow> string"
  sha1_hex :: "string \<Rightarrow> string"

text \<open>What a JavaScript function throws: an error of the disk, or \<^verbatim>\<open>new Error(msg)\<close>.\<close>

datatype exn = FsError errno | Error string

text \<open>\<^verbatim>\<open>UXStat\<close> and \<^verbatim>\<open>UXFileInfoStub\<close>; \<open>deleted\<close> is false where the source leaves it out.\<close>

record ux_stat =
  size :: nat
  ctime :: int
  mtime :: int
  type :: string

record file_stub =
  name :: string
  path :: string
  stat :: ux_stat
  deleted :: bool

text \<open>The fields of a \<^verbatim>\<open>ModuleFileAccessNode\<close> that the modelled methods read.\<close>

record file_access =
  vaultDir :: string
  trashDir :: string
  touchedMap :: "string \<rightharpoonup> int"

text \<open>\<^verbatim>\<open>abs(rel) = path.join(this.vaultDir, normalizeVaultRelative(rel))\<close>\<close>

definition abs_path :: "'fs node_api \<Rightarrow> file_access \<Rightarrow> string \<Rightarrow> string" where
  "abs_path api fa rel = path_join api (vaultDir fa) (normalizeVaultRelative rel)"

text \<open>
  \<^verbatim>\<open>stat(pathRel)\<close>: the call of \<^verbatim>\<open>fs.stat\<close> stands in a \<^verbatim>\<open>try\<close> whose
  \<^verbatim>\<open>catch\<close> returns null. The result type keeps a place for a thrown error, so
  that "never throws" is a statement about the function.
\<close>

definition stat_node :: "'fs node_api \<Rightarrow> file_access \<Rightarrow> 'fs \<Rightarrow> string \<Rightarrow> exn + ux_stat option" where
  "stat_node api fa disk pathRel =
     (let rel = normalizeVaultRelative pathRel in
      case fs_stat api disk (abs_path api fa rel) of
        Inl e \<Rightarrow> Inr None
      | Inr st \<Rightarrow>
          if \<not> isFile st then Inr None
          else Inr (Some \<lparr>size = st_size st, ctime = st_ctimeMs st, mtime = st_mtimeMs st,
                           type = ''file''\<rparr>))"

text \<open>\<^verbatim>\<open>getFileStub(pathRel)\<close>, the synchronous variant (\<^verbatim>\<open>fssync.statSync\<close>).\<close>

definition getFileStub :: "'fs node_api \<Rightarrow> file_access \<Rightarrow> 'fs \<Rightarrow> string \<Rightarrow> exn + file_stub option" where
  "getFileStub api fa disk pathRel =
     (let rel = normalizeVaultRelative pathRel; abs = abs_path api fa rel in
      case fs_stat api disk abs of
        Inl e \<Rightarrow> Inr None
      | Inr st \<Rightarrow>
          if \<not> isFile st then Inr None
          else Inr (Some \<lparr>name = path_basename api rel, path = rel,
                           stat = \<lparr>size = st_size st, ctime = st_ctimeMs st, mtime = st_mtimeMs st,
                                   type = ''file''\<rparr>,
                           deleted = False\<rparr>))"

text \<open>
  \<^verbatim>\<open>walkSync(dirAbs, baseRel, out)\<close>: the entries of the directory in the order
  \<^verbatim>\<open>readdirSync\<close> gives them; a directory is walked in turn, a regular file is pushed
  with the path \<^verbatim>\<open>baseRel ? `${baseRel}/${e.name}` : e.name\<close> (the name of the entry as it
  stands, not normalised) and the result of \<^verbatim>\<open>statSync\<close>, anything else is skipped. An
  error of \<^verbatim>\<open>readdirSync\<close> or \<^verbatim>\<open>statSync\<close> is thrown on. The two halves of the function,
  the call on a directory and the \<^verbatim>\<open>for\<close> loop over its entries, are the two kinds of
  \<open>walk_call\<close>. A walk that does not end has the value \<open>None\<close>.
\<close>

datatype walk_call = WalkDir string string | WalkEntries string string "dirent list"

partial_function (option) walk ::
  "'fs node_api \<Rightarrow> 'fs \<Rightarrow> walk_call \<Rightarrow> file_stub list \<Rightarrow> (exn + file_stub list) option" where
  "walk api disk call out =
     (case call of
        WalkDir dirAbs baseRel \<Rightarrow>
          (case fs_readdir api disk dirAbs of
             Inl e \<Rightarrow> Some (Inl (FsError e))
           | Inr entries \<Rightarrow> walk api disk (WalkEntries dirAbs baseRel entries) out)
      | WalkEntries dirAbs baseRel entries \<Rightarrow>
          (case entries of
             [] \<Rightarrow> Some (Inr out)
           | e # es \<Rightarrow>
               (let rel = (if baseRel \<noteq> [] then baseRel @ ''/'' @ d_name e else d_name e);
                    abs = path_join api dirAbs (d_name e)
                in if d_kind e = Directory then
                     Option.bind (walk api disk (WalkDir abs rel) out)
                       (\<lambda>r. case r of
                              Inl x \<Rightarrow> Some (Inl x)
                            | Inr out' \<Rightarrow> walk api disk (WalkEntries dirAbs baseRel es) out')
                   else if d_kind e = RegularFile then
                     (case fs_stat api disk abs of
                        Inl x \<Rightarrow> Some (Inl (FsError x))
                      | Inr st \<Rightarrow>
                          walk api disk (WalkEntries dirAbs baseRel es)
                            (out @ [\<lparr>name = d_name e, path = rel,
                                     stat = \<lparr>size = st_size st, ctime = st_ctimeMs st,
                                             mtime = st_mtimeMs st, type = ''file''\<rparr>,
                                     deleted = False\<rparr>]))
                   else walk api disk (WalkEntries dirAbs baseRel es) out)))"

declare walk.simps [code]

definition walkSync ::
  "'fs node_api \<Rightarrow> 'fs \<Rightarrow> string \<Rightarrow> string \<Rightarrow> file_stub list \<Rightarrow> (exn + file_stub list) option" where
  "walkSync api disk dirAbs baseRel out = walk api disk (WalkDir dirAbs baseRel) out"

text \<open>\<^verbatim>\<open>getFiles()\<close>: the walk of the vault directory, from an empty list.\<close>

definition getFiles :: "'fs node_api \<Rightarrow> file_access \<Rightarrow> 'fs \<Rightarrow> (exn + file_stub list) option" where
  "getFiles api fa disk = walkSync api disk (vaultDir fa) [] []"

text \<open>
  \<^verbatim>\<open>touched(file)\<close> stores \<^verbatim>\<open>Date.now()\<close> under the path;
  \<^verbatim>\<open>recentlyTouched(file)\<close> reads it back: \<^verbatim>\<open>if (!t) return false\<close> is taken for a
  missing entry and for the stamp 0, then \<^verbatim>\<open>Date.now() - t < 5000\<close>. The clock reading
  is the argument \<open>now\<close>.
\<close>

definition touched :: "file_access \<Rightarrow> int \<Rightarrow> string \<Rightarrow> file_access" where
  "touched fa now p = fa\<lparr>touchedMap := (touchedMap fa)(p \<mapsto> now)\<rparr>"

definition recentlyTouched :: "file_access \<Rightarrow> int \<Rightarrow> string \<Rightarrow> bool" where
  "recentlyTouched fa now p =
     (case touchedMap fa p of
        None \<Rightarrow> False
      | Some t \<Rightarrow> if t = 0 then False else now - t < 5000)"

definition clearTouched :: "file_access \<Rightarrow> file_access" where
  "clearTouched fa = fa\<lparr>touchedMap := Map.empty\<rparr>"

text \<open>
  The decimal text of a number, as \<^verbatim>\<open>"" + n\<close> gives it for an integer such as
  \<^verbatim>\<open>Date.now()\<close>.
\<close>

function decimalDigits :: "int \<Rightarrow> string" where
  "decimalDigits n =
     (if n < 10 then [''0123456789'' ! nat n]
      else decimalDigits (n div 10) @ [''0123456789'' ! nat (n mod 10)])"
  by pat_completeness auto
termination
  by (relation "measure nat") auto

definition decimal :: "int \<Rightarrow> string" where
  "decimal n = (if n < 0 then ''-'' @ decimalDigits (- n) else decimalDigits n)"

text \<open>
  \<^verbatim>\<open>delete(file, force)\<close>: \<^verbatim>\<open>fs.stat\<close> and \<^verbatim>\<open>fs.rm\<close> stand in one \<^verbatim>\<open>try\<close>; the
  \<^verbatim>\<open>catch\<close> throws "File not found" unless \<^verbatim>\<open>force\<close> is set. A call of the disk
  that fails is taken to leave the disk as it was.
\<close>

definition delete_node :: "'fs node_api \<Rightarrow> file_access \<Rightarrow> 'fs \<Rightarrow> string \<Rightarrow> bool \<Rightarrow> exn + 'fs" where
  "delete_node api fa disk file force =
     (let rel = normalizeVaultRelative file; abs = abs_path api fa rel in
      case (case fs_stat api disk abs of
              Inl e \<Rightarrow> Inl e
            | Inr st \<Rightarrow> fs_rm api disk abs (isDirectory st)) of
        Inr disk' \<Rightarrow> Inr disk'
      | Inl e \<Rightarrow> if \<not> force then Inl (Error (''File not found: '' @ rel)) else Inr disk)"

text \<open>
  The name in the trash, \<^verbatim>\<open>destRel\<close>: the path with every slash replaced by two
  underscores, a dot, and the first eight hexadecimal digits of the SHA-1 of
  \<^verbatim>\<open>rel + ":" + Date.now()\<close>.
\<close>

definition trashName :: "'fs node_api \<Rightarrow> string \<Rightarrow> int \<Rightarrow> string" where
  "trashName api rel now =
     concat (map (\<lambda>c. if c = CHR ''/'' then ''__'' else [c]) rel) @ ''.''
       @ take 8 (sha1_hex api (rel @ '':'' @ decimal now))"

text \<open>
  \<^verbatim>\<open>trash(file, _system)\<close>, with the reading \<open>now\<close> of the clock: the trash directory
  is made (an error of \<^verbatim>\<open>mkdir\<close> is thrown on), the file is renamed into it, and a
  rename that fails is answered by \<^verbatim>\<open>delete(rel, true)\<close>.
\<close>

definition trash_node :: "'fs node_api \<Rightarrow> file_access \<Rightarrow> 'fs \<Rightarrow> string \<Rightarrow> int \<Rightarrow> exn + 'fs" where
  "trash_node api fa disk file now =
     (let rel = normalizeVaultRelative file; abs = abs_path api fa rel;
          dest = path_join api (trashDir fa) (trashName api rel now) in
      case fs_mkdir api disk (trashDir fa) of
        Inl e \<Rightarrow> Inl (FsError e)
      | Inr d1 \<Rightarrow>
          (case fs_rename api d1 abs dest of
             Inr d2 \<Rightarrow> Inr d2
           | Inl e \<Rightarrow> delete_node api fa d1 rel True))"

section \<open>StorageEventManagerNode: the watcher\<close>

subsection \<open>Events, queue items and pending writes\<close>

datatype file_event_type = CREATE | CHANGED | DELETE | INTERNAL

text \<open>The \<^verbatim>\<open>kind\<close> of a pending write is \<^verbatim>\<open>"CREATE" | "CHANGED"\<close>.\<close>

datatype write_kind = KCREATE | KCHANGED

fun kindType :: "write_kind \<Rightarrow> file_event_type" where
  "kindType KCREATE = CREATE"
| "kindType KCHANGED = CHANGED"

text \<open>\<^verbatim>\<open>FileEvent\<close> (\<open>event_type\<close> and \<open>event_file\<close> are its \<^verbatim>\<open>type\<close> and \<^verbatim>\<open>file\<close>); an optional field that is left out is \<open>None\<close>.\<close>

record file_event =
  event_type :: file_event_type
  event_file :: file_stub
  oldPath :: "string option"
  cachedData :: "string option"
  skipBatchWait :: "bool option"

text \<open>
  The item \<^verbatim>\<open>appendQueue\<close> builds: \<^verbatim>\<open>{type, args: {file, oldPath, cache, ctx},
  skipBatchWait, key}\<close>. The \<^verbatim>\<open>key\<close> is a random token that nothing reads and
  \<^verbatim>\<open>ctx\<close> is passed through untouched; both are left out.
\<close>

record queued_item =
  item_type :: file_event_type
  item_file :: file_stub
  item_oldPath :: "string option"
  item_cache :: "string option"
  item_skipBatchWait :: "bool option"

definition toItem :: "file_event \<Rightarrow> queued_item" where
  "toItem param =
     \<lparr>item_type = event_type param, item_file = event_file param, item_oldPath = oldPath param,
      item_cache = cachedData param, item_skipBatchWait = skipBatchWait param\<rparr>"

record file_info =
  mtimeMs :: int
  fsize :: nat

record pending_write =
  kind :: write_kind
  lastMtimeMs :: int
  lastSize :: nat
  lastChangeAt :: int
  firstSeenAt :: int

subsection \<open>The collaborators and the clock\<close>

text \<open>
  Every call of \<^verbatim>\<open>Date.now()\<close> in the poll loop and in the acceptance check is a
  reading of the clock at a call site: the two stamps of a DELETE stub, the
  \<^verbatim>\<open>lastChangeAt\<close> and \<^verbatim>\<open>firstSeenAt\<close> stamps written while a path is examined, the
  \<^verbatim>\<open>now\<close> of the flush, and the reading inside \<^verbatim>\<open>recentlyTouched\<close>.
\<close>

datatype clock_site =
  DelCtime string | DelMtime string | LastChange string | FirstSeen string | FlushNow
  | TouchCheck string

text \<open>
  What the watcher sees of the rest of the system during one pass of its loop: the
  settings, the predicates of the vault service (\<^verbatim>\<open>isTargetFile\<close> is awaited and may
  reject), the storage adapter (\<^verbatim>\<open>getFiles()\<close>, which throws when the walk fails,
  \<^verbatim>\<open>getFileStub\<close>, and the adapter's touched table), the clock, and whether
  \<^verbatim>\<open>stop()\<close> is called before the loop tests \<^verbatim>\<open>running\<close> again.
\<close>

record world =
  isConfigured :: bool
  suspendFileWatching :: bool
  shouldBeIgnored :: "string \<Rightarrow> bool"
  isFileSizeTooLarge :: "nat \<Rightarrow> bool"
  isTargetFile :: "string \<Rightarrow> exn + bool"
  storage :: file_access
  storageFiles :: "exn + file_stub list"
  storageFileStub :: "string \<Rightarrow> file_stub option"
  dateNow :: "clock_site \<Rightarrow> int"
  stopCalled :: bool

text \<open>
  The fields of the watcher. \<open>spawnedRuns\<close> counts the calls
  \<^verbatim>\<open>fireAndForget(() => this.runQueuedEvents())\<close>, \<open>fileListMarks\<close> the calls of
  \<^verbatim>\<open>markFileListPossiblyChanged()\<close>, \<open>logs\<close> and \<open>sleeps\<close> record the messages
  logged and the timeouts awaited by the poll loop.
\<close>

datatype log_entry = LogText string | LogError exn

record engine =
  scanIntervalMs :: int
  awaitWriteFinishMs :: int
  minCreateHoldMsForEmptyFile :: int
  bufferedQueuedItems :: "queued_item list"
  spawnedRuns :: nat
  fileListMarks :: nat
  running :: bool
  snapshot :: "(string, file_info) jsmap"
  pendingWrites :: "(string, pending_write) jsmap"
  logs :: "log_entry list"
  sleeps :: "int list"

text \<open>The constructor, with its default intervals.\<close>

definition newEngine :: "int option \<Rightarrow> int option \<Rightarrow> engine" where
  "newEngine scanInterval awaitWriteFinish =
     \<lparr>scanIntervalMs = (case scanInterval of None \<Rightarrow> 750 | Some v \<Rightarrow> v),
      awaitWriteFinishMs = (case awaitWriteFinish of None \<Rightarrow> 1000 | Some v \<Rightarrow> v),
      minCreateHoldMsForEmptyFile = 15000,
      bufferedQueuedItems = [], spawnedRuns = 0, fileListMarks = 0, running = False,
      snapshot = [], pendingWrites = [], logs = [], sleeps = []\<rparr>"

subsection \<open>appendQueue and enqueue\<close>

definition enqueue :: "queued_item \<Rightarrow> engine \<Rightarrow> engine" where
  "enqueue newItem st =
     st\<lparr>bufferedQueuedItems := bufferedQueuedItems st @ [newItem],
        spawnedRuns := Suc (spawnedRuns st)\<rparr>"

text \<open>
  The loop of \<^verbatim>\<open>appendQueue\<close> over the batch. A rejected \<^verbatim>\<open>isTargetFile\<close> leaves the
  function at once with the error; what was enqueued before stays enqueued.
\<close>

fun appendQueueLoop :: "world \<Rightarrow> file_event list \<Rightarrow> engine \<Rightarrow> engine \<times> exn option" where
  "appendQueueLoop w [] st = (st, None)"
| "appendQueueLoop w (param # params) st =
     (if shouldBeIgnored w (path (event_file param)) then appendQueueLoop w params st
      else if event_type param \<noteq> INTERNAL
              \<and> isFileSizeTooLarge w (size (stat (event_file param)))
              \<and> (event_type param = CREATE \<or> event_type param = CHANGED)
        then appendQueueLoop w params st
      else (case isTargetFile w (path (event_file param)) of
              Inl e \<Rightarrow> (st, Some e)
            | Inr target \<Rightarrow>
                if \<not> target then appendQueueLoop w params st
                else if (event_type param = CREATE \<or> event_type param = CHANGED)
                        \<and> recentlyTouched (storage w)
                             (dateNow w (TouchCheck (path (event_file param)))) (path (event_file param))
                  then appendQueueLoop w params st
                else appendQueueLoop w params (enqueue (toItem param) st)))"

definition appendQueue :: "world \<Rightarrow> file_event list \<Rightarrow> engine \<Rightarrow> engine \<times> exn option" where
  "appendQueue w params st =
     (if \<not> isConfigured w then (st, None)
      else if suspendFileWatching w then (st, None)
      else appendQueueLoop w params (st\<lparr>fileListMarks := Suc (fileListMarks st)\<rparr>))"

subsection \<open>One pass of the poll loop\<close>

text \<open>\<^verbatim>\<open>_scanSnapshot()\<close>: a new map, one \<^verbatim>\<open>set\<close> per file of \<^verbatim>\<open>getFiles()\<close>.\<close>

definition scanSnapshot :: "file_stub list \<Rightarrow> (string, file_info) jsmap" where
  "scanSnapshot files =
     foldl (\<lambda>snap f. map_set snap (path f) \<lparr>mtimeMs = mtime (stat f), fsize = size (stat f)\<rparr>)
       [] files"

text \<open>The DELETE event built for a path of the previous snapshot that is gone.\<close>

definition deleteEvent :: "world \<Rightarrow> string \<Rightarrow> file_info \<Rightarrow> file_event" where
  "deleteEvent w p prevInfo =
     \<lparr>event_type = DELETE,
      event_file = \<lparr>name = stubName p, path = p,
               stat = \<lparr>size = fsize prevInfo, ctime = dateNow w (DelCtime p),
                       mtime = dateNow w (DelMtime p), type = ''file''\<rparr>,
               deleted = True\<rparr>,
      oldPath = None, cachedData = None, skipBatchWait = Some True\<rparr>"

text \<open>
  "detect deletions": the loop over the entries of the previous snapshot. An error
  thrown by \<^verbatim>\<open>appendQueue\<close> ends the pass.
\<close>

fun detectDeletions ::
  "world \<Rightarrow> (string, file_info) jsmap \<Rightarrow> (string \<times> file_info) list \<Rightarrow> engine
     \<Rightarrow> engine \<times> exn option" where
  "detectDeletions w nxt [] st = (st, None)"
| "detectDeletions w nxt ((p, prevInfo) # rest) st =
     (if \<not> map_has nxt p then
        (case appendQueue w [deleteEvent w p prevInfo] st of
           (st', Some e) \<Rightarrow> (st', Some e)
         | (st', None) \<Rightarrow> detectDeletions w nxt rest st')
      else detectDeletions w nxt rest st)"

text \<open>
  "detect creates/changes", for one entry \<open>(p, info)\<close> of the new snapshot. The writes
  to the fields of \<^verbatim>\<open>existing\<close> are a \<^verbatim>\<open>set\<close> under the same key.
\<close>

definition refreshExisting :: "world \<Rightarrow> string \<Rightarrow> file_info \<Rightarrow> pending_write \<Rightarrow> pending_write" where
  "refreshExisting w p info existing =
     (if lastMtimeMs existing \<noteq> mtimeMs info \<or> lastSize existing \<noteq> fsize info
      then existing\<lparr>lastMtimeMs := mtimeMs info, lastSize := fsize info,
                    lastChangeAt := dateNow w (LastChange p)\<rparr>
      else existing)"

definition firstPending :: "world \<Rightarrow> string \<Rightarrow> file_info \<Rightarrow> write_kind \<Rightarrow> pending_write" where
  "firstPending w p info k =
     \<lparr>kind = k, lastMtimeMs = mtimeMs info, lastSize = fsize info,
      lastChangeAt = dateNow w (LastChange p), firstSeenAt = dateNow w (FirstSeen p)\<rparr>"

definition detectOne ::
  "world \<Rightarrow> (string, file_info) jsmap \<Rightarrow> string \<Rightarrow> file_info
     \<Rightarrow> (string, pending_write) jsmap \<Rightarrow> (string, pending_write) jsmap" where
  "detectOne w prev p info pw =
     (case map_get prev p of
        None \<Rightarrow>
          (case map_get pw p of
             Some existing \<Rightarrow>
               map_set pw p
                 (refreshExisting w p info
                    (if kind existing \<noteq> KCREATE then existing\<lparr>kind := KCREATE\<rparr> else existing))
           | None \<Rightarrow> map_set pw p (firstPending w p info KCREATE))
      | Some prevInfo \<Rightarrow>
          if mtimeMs prevInfo \<noteq> mtimeMs info \<or> fsize prevInfo \<noteq> fsize info then
            (case map_get pw p of
               Some existing \<Rightarrow> map_set pw p (refreshExisting w p info existing)
             | None \<Rightarrow> map_set pw p (firstPending w p info KCHANGED))
          else pw)"

fun detectChanges ::
  "world \<Rightarrow> (string, file_info) jsmap \<Rightarrow> (string \<times> file_info) list
     \<Rightarrow> (string, pending_write) jsmap \<Rightarrow> (string, pending_write) jsmap" where
  "detectChanges w prev [] pw = pw"
| "detectChanges w prev ((p, info) # rest) pw = detectChanges w prev rest (detectOne w prev p info pw)"

text \<open>
  "flush stable pending writes": the loop over the entries of the pending table, with
  \<^verbatim>\<open>now\<close> read once before it. Only the entry at hand is deleted or rewritten while
  the loop runs, so the entries visited are those the table held when it started.
  \<open>flushEntry\<close> is the body of the loop for one entry: a \<^verbatim>\<open>continue\<close> returns the
  state as it is, a thrown error leaves the entry in the table.
\<close>

definition stableEvent :: "pending_write \<Rightarrow> file_stub \<Rightarrow> file_event" where
  "stableEvent pwr stub =
     \<lparr>event_type = kindType (kind pwr), event_file = stub, oldPath = None, cachedData = None,
      skipBatchWait = None\<rparr>"

definition flushEntry ::
  "world \<Rightarrow> (string, file_info) jsmap \<Rightarrow> string \<Rightarrow> pending_write \<Rightarrow> engine
     \<Rightarrow> engine \<times> exn option" where
  "flushEntry w nxt p pwr st =
     (case map_get nxt p of
        None \<Rightarrow> (st\<lparr>pendingWrites := map_delete (pendingWrites st) p\<rparr>, None)
      | Some cur \<Rightarrow>
          if mtimeMs cur \<noteq> lastMtimeMs pwr \<or> fsize cur \<noteq> lastSize pwr then
            (st\<lparr>pendingWrites :=
                  map_set (pendingWrites st) p
                    (pwr\<lparr>lastMtimeMs := mtimeMs cur, lastSize := fsize cur,
                          lastChangeAt := dateNow w FlushNow\<rparr>)\<rparr>, None)
          else if dateNow w FlushNow - lastChangeAt pwr \<ge> awaitWriteFinishMs st then
            (if kind pwr = KCREATE \<and> lastSize pwr = 0
                \<and> dateNow w FlushNow - firstSeenAt pwr < minCreateHoldMsForEmptyFile st
             then (st, None)
             else (case storageFileStub w p of
                     None \<Rightarrow> (st\<lparr>pendingWrites := map_delete (pendingWrites st) p\<rparr>, None)
                   | Some stub \<Rightarrow>
                       (case appendQueue w [stableEvent pwr stub] st of
                          (st', Some e) \<Rightarrow> (st', Some e)
                        | (st', None) \<Rightarrow>
                            (st'\<lparr>pendingWrites := map_delete (pendingWrites st') p\<rparr>, None))))
          else (st, None))"

fun flushPending ::
  "world \<Rightarrow> (string, file_info) jsmap \<Rightarrow> (string \<times> pending_write) list \<Rightarrow> engine
     \<Rightarrow> engine \<times> exn option" where
  "flushPending w nxt [] st = (st, None)"
| "flushPending w nxt ((p, pwr) # rest) st =
     (case flushEntry w nxt p pwr st of
        (st', Some e) \<Rightarrow> (st', Some e)
      | (st', None) \<Rightarrow> flushPending w nxt rest st')"

text \<open>
  The body of the \<^verbatim>\<open>try\<close> block: scan, deletions, creates and changes, flush, and
  last the assignment \<^verbatim>\<open>this.snapshot = next\<close>. The second component is the error
  that reached the \<^verbatim>\<open>catch\<close>, if any.
\<close>

definition pollTick :: "world \<Rightarrow> engine \<Rightarrow> engine \<times> exn option" where
  "pollTick w st =
     (case storageFiles w of
        Inl e \<Rightarrow> (st, Some e)
      | Inr files \<Rightarrow>
          (let nxt = scanSnapshot files; prev = snapshot st in
           case detectDeletions w nxt prev st of
             (st1, Some e) \<Rightarrow> (st1, Some e)
           | (st1, None) \<Rightarrow>
               (let st2 = st1\<lparr>pendingWrites := detectChanges w prev nxt (pendingWrites st1)\<rparr> in
                case flushPending w nxt (pendingWrites st2) st2 of
                  (st3, Some e) \<Rightarrow> (st3, Some e)
                | (st3, None) \<Rightarrow> (st3\<lparr>snapshot := nxt\<rparr>, None))))"

text \<open>
  One iteration of \<^verbatim>\<open>while (this.running)\<close>: the pass, the \<^verbatim>\<open>catch\<close> that logs, the
  awaited timeout of \<^verbatim>\<open>scanIntervalMs\<close>. \<^verbatim>\<open>stop()\<close> clears \<^verbatim>\<open>running\<close>.
\<close>

definition pollIteration :: "world \<Rightarrow> engine \<Rightarrow> engine" where
  "pollIteration w st =
     (let (st1, thrown) = pollTick w st;
          st2 = (case thrown of
                   None \<Rightarrow> st1
                 | Some e \<Rightarrow> st1\<lparr>logs := logs st1 @ [LogText ''Watcher poll failed'', LogError e]\<rparr>);
          st3 = st2\<lparr>sleeps := sleeps st2 @ [scanIntervalMs st2]\<rparr>
      in if stopCalled w then st3\<lparr>running := False\<rparr> else st3)"

text \<open>
  The loop, over the worlds it meets pass after pass. It ends when \<^verbatim>\<open>running\<close> is
  false; the list of worlds is the stretch of time that is observed.
\<close>

fun pollLoop :: "world list \<Rightarrow> engine \<Rightarrow> engine" where
  "pollLoop [] st = st"
| "pollLoop (w # ws) st = (if running st then pollLoop ws (pollIteration w st) else st)"

subsection \<open>The watcher on the storage adapter\<close>

text \<open>
  The watcher is written against the interface \<^verbatim>\<open>StorageAccess\<close>; in this repository
  the object behind it is the \<^verbatim>\<open>ModuleFileAccessNode\<close>. The world of a pass in which the
  storage is that adapter on a given disk: \<^verbatim>\<open>getFiles()\<close> is the walk of the vault and
  \<^verbatim>\<open>getFileStub(p)\<close> the synchronous stub (which has no branch that throws). There is
  no such world when the walk does not end.
\<close>

definition nodeStorage :: "'fs node_api \<Rightarrow> 'fs \<Rightarrow> world \<Rightarrow> world option" where
  "nodeStorage api disk w =
     map_option
       (\<lambda>listing. w\<lparr>storageFiles := listing,
                      storageFileStub :=
                        (\<lambda>p. case getFileStub api (storage w) disk p of
                                Inr found \<Rightarrow> found
                              | Inl e \<Rightarrow> None)\<rparr>)
       (getFiles api (storage w) disk)"

text \<open>The poll loop over the disks it meets pass after pass, through the adapter.\<close>

definition pollLoopOn :: "'fs node_api \<Rightarrow> ('fs \<times> world) list \<Rightarrow> engine \<Rightarrow> engine option" where
  "pollLoopOn api passes st =
     map_option (\<lambda>ws. pollLoop ws st)
       (those (map (\<lambda>pass. nodeStorage api (fst pass) (snd pass)) passes))"

section \<open>SHA-1, for evaluation\<close>

text \<open>
  The digest that \<^verbatim>\<open>node:crypto\<close> computes, as the standard defines it, on 32-bit
  words held as integers with the wrap-around written out.
\<close>

definition m32 :: "int \<Rightarrow> int" where "m32 x = x mod 4294967296"

definition rotl32 :: "nat \<Rightarrow> int \<Rightarrow> int" where
  "rotl32 n x = m32 (x * 2 ^ n) + x div 2 ^ (32 - n)"

definition not32 :: "int \<Rightarrow> int" where "not32 x = 4294967295 - x"

definition sha1_f :: "nat \<Rightarrow> int \<Rightarrow> int \<Rightarrow> int \<Rightarrow> int" where
  "sha1_f t b c d =
     (if t < 20 then (b AND c) OR (not32 b AND d)
      else if t < 40 then b XOR c XOR d
      else if t < 60 then (b AND c) OR (b AND d) OR (c AND d)
      else b XOR c XOR d)"

definition sha1_k :: "nat \<Rightarrow> int" where
  "sha1_k t = (if t < 20 then 0x5A827999 else if t < 40 then 0x6ED9EBA1
               else if t < 60 then 0x8F1BBCDC else 0xCA62C1D6)"

text \<open>The message schedule, newest word first; the eighty rounds; one block.\<close>

fun sha1_expand :: "nat \<Rightarrow> int list \<Rightarrow> int list" where
  "sha1_expand 0 ws = ws"
| "sha1_expand (Suc n) ws =
     sha1_expand n (rotl32 1 (ws ! 2 XOR ws ! 7 XOR ws ! 13 XOR ws ! 15) # ws)"

fun sha1_rounds :: "nat \<Rightarrow> int list \<Rightarrow> int \<times> int \<times> int \<times> int \<times> int \<Rightarrow> int \<times> int \<times> int \<times> int \<times> int" where
  "sha1_rounds t [] s = s"
| "sha1_rounds t (w # ws) (a, b, c, d, e) =
     sha1_rounds (Suc t) ws
       (m32 (rotl32 5 a + sha1_f t b c d + e + sha1_k t + w), a, rotl32 30 b, c, d)"

definition sha1_block :: "int list \<Rightarrow> int \<times> int \<times> int \<times> int \<times> int \<Rightarrow> int \<times> int \<times> int \<times> int \<times> int" where
  "sha1_block ws h =
     (case h of (h0, h1, h2, h3, h4) \<Rightarrow>
        (case sha1_rounds 0 (rev (sha1_expand 64 (rev ws))) h of (a, b, c, d, e) \<Rightarrow>
           (m32 (h0 + a), m32 (h1 + b), m32 (h2 + c), m32 (h3 + d), m32 (h4 + e))))"

fun be_words :: "int list \<Rightarrow> int list" where
  "be_words (a # b # c # d # bs) = (((a * 256 + b) * 256 + c) * 256 + d) # be_words bs"
| "be_words _ = []"

definition sha1_pad :: "int list \<Rightarrow> int list" where
  "sha1_pad bs =
     (let l = length bs; z = (119 - l mod 64) mod 64; n = 8 * int l in
      bs @ [128] @ replicate z 0 @
      map (\<lambda>i. (n div 256 ^ (7 - i)) mod 256) [0..<8])"

fun sha1_blocks :: "nat \<Rightarrow> int list \<Rightarrow> int \<times> int \<times> int \<times> int \<times> int \<Rightarrow> int \<times> int \<times> int \<times> int \<times> int" where
  "sha1_blocks 0 ws h = h"
| "sha1_blocks (Suc n) ws h = sha1_blocks n (drop 16 ws) (sha1_block (take 16 ws) h)"

definition hexdigit :: "int \<Rightarrow> char" where
  "hexdigit n = ''0123456789abcdef'' ! nat n"

definition hex32 :: "int \<Rightarrow> string" where
  "hex32 x = map (\<lambda>i. hexdigit ((x div 16 ^ (7 - i)) mod 16)) [0..<8]"

definition sha1_hex_of :: "string \<Rightarrow> string" where
  "sha1_hex_of s =
     (let ws = be_words (sha1_pad (map (\<lambda>c. int (of_char c)) s)) in
      case sha1_blocks (length ws div 16) ws
             (0x67452301, 0xEFCDAB89, 0x98BADCFE, 0x10325476, 0xC3D2E1F0) of
        (a, b, c, d, e) \<Rightarrow> hex32 a @ hex32 b @ hex32 c @ hex32 d @ hex32 e)"

section \<open>An in-memory disk, for evaluation\<close>

text \<open>
  A flat table from absolute paths to nodes, with the usual behaviour of the calls:
  a missing path is \<open>ENOENT\<close>, a rename replaces its destination, a recursive removal
  takes the paths below with it.
\<close>

type_synonym table_disk = "(string \<times> stats) list"

text \<open>
  The entries of a directory of the table: the paths that continue the path of the
  directory by a slash and one name, in the order of the table.
\<close>

definition table_readdir :: "table_disk \<Rightarrow> string \<Rightarrow> errno + dirent list" where
  "table_readdir d p =
     (case map_of d p of
        None \<Rightarrow> Inl ENOENT
      | Some st \<Rightarrow>
          if nodeKind st \<noteq> Directory then Inl ENOTDIR
          else Inr (map (\<lambda>e. \<lparr>d_name = drop (length p + 1) (fst e), d_kind = nodeKind (snd e)\<rparr>)
                      (filter (\<lambda>e. take (length p + 1) (fst e) = p @ ''/''
                                    \<and> length p + 1 < length (fst e)
                                    \<and> CHR ''/'' \<notin> set (drop (length p + 1) (fst e))) d)))"

definition table_api :: "table_disk node_api" where
  "table_api =
     \<lparr>fs_stat = (\<lambda>d p. case map_of d p of None \<Rightarrow> Inl ENOENT | Some st \<Rightarrow> Inr st),
      fs_readdir = table_readdir,
      fs_rm = (\<lambda>d p r. Inr (filter (\<lambda>e. fst e \<noteq> p
                                        \<and> \<not> (r \<and> take (length p + 1) (fst e) = p @ ''/'')) d)),
      fs_rename = (\<lambda>d a b. case map_of d a of
                      None \<Rightarrow> Inl ENOENT
                    | Some st \<Rightarrow> Inr ((b, st) # filter (\<lambda>e. fst e \<noteq> a \<and> fst e \<noteq> b) d)),
      fs_mkdir = (\<lambda>d p. Inr d),
      path_join = (\<lambda>a b. a @ ''/'' @ b),
      path_basename = lastSegment,
      sha1_hex = sha1_hex_of\<rparr>"

definition vault_access :: file_access where
  "vault_access = \<lparr>vaultDir = ''/vault'', trashDir = ''/data/trash'', touchedMap = Map.empty\<rparr>"

definition sample_disk :: table_disk where
  "sample_disk =
     [(''/vault/notes'', \<lparr>nodeKind = Directory, st_size = 4096, st_ctimeMs = 10, st_mtimeMs = 20\<rparr>),
      (''/vault/notes/a.md'', \<lparr>nodeKind = RegularFile, st_size = 7, st_ctimeMs = 11, st_mtimeMs = 21\<rparr>)]"

section \<open>StorageEventManagerNode: the dispatch loop\<close>

text \<open>
  The poll loop above is followed as far as the buffer of the queue; here the queue is
  followed from \<^verbatim>\<open>enqueue\<close> on.
  \<^verbatim>\<open>runQueuedEvents\<close> is an asynchronous function: every call is a run of its own, and the
  runs interleave at the points where one of them awaits. A run awaits a permit of the
  semaphore (\<^verbatim>\<open>await this.concurrentProcessing.acquire()\<close>), then the lock of its path
  (\<^verbatim>\<open>serialized(`process-${filename}`, ...)\<close>), then the consumer
  (\<^verbatim>\<open>await processFileEvent(item)\<close>); when the consumer has returned or thrown, the run
  goes on to \<^verbatim>\<open>wait.resolve\<close>, the \<^verbatim>\<open>finally\<close> block and the test that re-arms the loop.
\<close>

datatype run_point = AwaitPermit | AwaitLock | InFlight | Settling bool | Finished

text \<open>
  One run: the item it took from the buffer, where it stands, and the state of its
  \<^verbatim>\<open>wait\<close> promise (\<open>None\<close> while pending, the value once resolved; it is never
  rejected). Runs are numbered in the order in which they start.
\<close>

record run_task =
  run_item :: queued_item
  run_at :: run_point
  run_wait :: "bool option"

text \<open>The calls of the consumer, as they begin and end, for the trace.\<close>

datatype consumer_call = Invoked nat | Returned nat

text \<open>
  The state of the dispatch loop: the buffer, the \<^verbatim>\<open>waitingMap\<close> (each entry holds the
  \<^verbatim>\<open>wait\<close> promise of a run, named by the number of the run), the runs, the runs that
  wait for a permit in the order of their calls of \<^verbatim>\<open>acquire()\<close>, the runs that hold a
  permit, the runs that called \<^verbatim>\<open>serialized\<close> and have not left it in the order of their
  calls, the trace of the consumer, and the messages logged.
\<close>

record dispatcher =
  buffered :: "queued_item list"
  waitingMap :: "(string, nat) jsmap"
  runs :: "run_task list"
  permitQueue :: "nat list"
  permitHolders :: "nat list"
  lockQueue :: "nat list"
  calls :: "consumer_call list"
  failureLog :: "string list"


text \<open>\<^verbatim>\<open>filename = item.args.file.path\<close>, the key of the \<^verbatim>\<open>waitingMap\<close> and of the lock.\<close>

definition runKey :: "dispatcher \<Rightarrow> nat \<Rightarrow> string" where
  "runKey s t = path (item_file (run_item (runs s ! t)))"

definition setPoint :: "nat \<Rightarrow> run_point \<Rightarrow> dispatcher \<Rightarrow> dispatcher" where
  "setPoint t pt s = s\<lparr>runs := (runs s)[t := (runs s ! t)\<lparr>run_at := pt\<rparr>]\<rparr>"

text \<open>
  \<^verbatim>\<open>runQueuedEvents\<close> from its start to its first \<^verbatim>\<open>await\<close>: nothing happens on an empty
  buffer; otherwise the head of the buffer is taken, a new \<^verbatim>\<open>wait\<close> promise is set in
  the \<^verbatim>\<open>waitingMap\<close> under the path (replacing an entry that is there), and
  \<^verbatim>\<open>acquire()\<close> is called.
\<close>

definition runQueuedEvents_start :: "dispatcher \<Rightarrow> dispatcher" where
  "runQueuedEvents_start s =
     (case buffered s of
        [] \<Rightarrow> s
      | item # rest \<Rightarrow>
          s\<lparr>buffered := rest,
            waitingMap := map_set (waitingMap s) (path (item_file item)) (length (runs s)),
            runs := runs s @ [\<lparr>run_item = item, run_at = AwaitPermit, run_wait = None\<rparr>],
            permitQueue := permitQueue s @ [length (runs s)]\<rparr>)"

text \<open>
  Modelled from the spec: \<^verbatim>\<open>fireAndForget\<close> of the library octagonal-wheels, which is
  not part of the repository. The dispatch loop is "triggered by queue non-emptiness" and
  "re-armed after each drained item": the function handed over is called at once and
  runs to its first \<^verbatim>\<open>await\<close>; the promise it returns is dropped.
\<close>

definition fireAndForget :: "(dispatcher \<Rightarrow> dispatcher) \<Rightarrow> dispatcher \<Rightarrow> dispatcher" where
  "fireAndForget f s = f s"

text \<open>
  \<^verbatim>\<open>enqueue(newItem)\<close>: the push, and \<^verbatim>\<open>fireAndForget(() => this.runQueuedEvents())\<close>.
\<close>

definition enqueue_run :: "queued_item \<Rightarrow> dispatcher \<Rightarrow> dispatcher" where
  "enqueue_run newItem s =
     fireAndForget runQueuedEvents_start (s\<lparr>buffered := buffered s @ [newItem]\<rparr>)"

text \<open>
  \<^verbatim>\<open>runQueuedEvents\<close> after \<^verbatim>\<open>serialized\<close> has returned (\<open>ok\<close>) or thrown: a
  failure is logged (the message; the error that follows it is left out), the \<^verbatim>\<open>wait\<close>
  promise is resolved with \<open>ok\<close>, the \<^verbatim>\<open>finally\<close> block deletes the entry of the path
  from the \<^verbatim>\<open>waitingMap\<close> (whichever run set it) and releases the permit, and the loop
  is re-armed when the buffer is not empty. This stretch has no \<^verbatim>\<open>await\<close>: it is one
  step.
\<close>

definition runQueuedEvents_finish :: "nat \<Rightarrow> bool \<Rightarrow> dispatcher \<Rightarrow> dispatcher" where
  "runQueuedEvents_finish t ok s =
     (let filename = runKey s t;
          s1 = s\<lparr>runs := (runs s)[t := (runs s ! t)\<lparr>run_at := Finished, run_wait := Some ok\<rparr>],
                 failureLog := (if ok then failureLog s
                                else failureLog s @ [''Failed to process file event: '' @ filename])\<rparr>;
          s2 = s1\<lparr>waitingMap := map_delete (waitingMap s1) filename,
                   permitHolders := removeAll t (permitHolders s1)\<rparr>
      in if buffered s2 \<noteq> [] then fireAndForget runQueuedEvents_start s2 else s2)"

text \<open>
  Modelled from the spec: \<^verbatim>\<open>Semaphore\<close> of the library octagonal-wheels, which is not
  part of the repository. A dispatch slot is "one of a fixed number of concurrent permits
  governing how many events may be handed to the downstream consumer simultaneously";
  the number is five by \<^verbatim>\<open>Semaphore(5)\<close>. A permit can be given while fewer than five
  are out.
\<close>

definition permitAvailable :: "dispatcher \<Rightarrow> bool" where
  "permitAvailable s = (length (permitHolders s) < 5)"

text \<open>
  Modelled from the spec: \<^verbatim>\<open>serialized\<close> of the library octagonal-wheels, which is not
  part of the repository. The exclusive scope of a key runs its operation "with a
  guarantee that no other exclusive scope for the same path runs concurrently": the lock
  of a key can be given while none of the runs that called \<^verbatim>\<open>serialized\<close> with that key
  is in its operation.
\<close>

definition lockFree :: "dispatcher \<Rightarrow> string \<Rightarrow> bool" where
  "lockFree s key =
     list_all (\<lambda>u. \<not> (runKey s u = key \<and> run_at (runs s ! u) = InFlight)) (lockQueue s)"

text \<open>
  The steps of the loop and of its surroundings. \<open>Submit\<close> is a call of \<^verbatim>\<open>enqueue\<close>;
  \<open>Grant t\<close>: the semaphore gives a permit to the waiting run \<open>t\<close>, which calls
  \<^verbatim>\<open>serialized\<close>; \<open>Begin t\<close>: the lock of its path is given to \<open>t\<close>, which calls the
  consumer; \<open>Return t ok\<close>: the consumer returns (\<open>ok\<close>) or throws, and the lock is
  released; \<open>Cleanup t\<close>: the run goes on to its end. A step that cannot be taken is
  \<open>None\<close>. Which of the waiting runs a permit or a lock is given to is left open: every
  choice is a step.
\<close>

datatype action = Submit queued_item | Grant nat | Begin nat | Return nat bool | Cleanup nat

fun perform :: "action \<Rightarrow> dispatcher \<Rightarrow> dispatcher option" where
  "perform (Submit newItem) s = Some (enqueue_run newItem s)"
| "perform (Grant t) s =
     (if t \<in> set (permitQueue s) \<and> permitAvailable s
      then Some (setPoint t AwaitLock
                   (s\<lparr>permitQueue := removeAll t (permitQueue s),
                      permitHolders := permitHolders s @ [t],
                      lockQueue := lockQueue s @ [t]\<rparr>))
      else None)"
| "perform (Begin t) s =
     (if t < length (runs s) \<and> run_at (runs s ! t) = AwaitLock
         \<and> lockFree s (runKey s t)
      then Some ((setPoint t InFlight s)\<lparr>calls := calls s @ [Invoked t]\<rparr>)
      else None)"
| "perform (Return t ok) s =
     (if t < length (runs s) \<and> run_at (runs s ! t) = InFlight
      then Some ((setPoint t (Settling ok) s)\<lparr>lockQueue := removeAll t (lockQueue s),
                                              calls := calls s @ [Returned t]\<rparr>)
      else None)"
| "perform (Cleanup t) s =
     (if t < length (runs s)
      then (case run_at (runs s ! t) of
              Settling ok \<Rightarrow> Some (runQueuedEvents_finish t ok s)
            | _ \<Rightarrow> None)
      else None)"

fun performAll :: "action list \<Rightarrow> dispatcher \<Rightarrow> dispatcher option" where
  "performAll [] s = Some s"
| "performAll (a # as) s = (case perform a s of None \<Rightarrow> None | Some s' \<Rightarrow> performAll as s')"







text \<open>
  Worlds for evaluation: every check accepts, the clock reads \<open>t\<close> at every site, the
  walk returns the listed files and \<^verbatim>\<open>getFileStub\<close> finds them.
\<close>

definition plainFile :: "string \<Rightarrow> int \<Rightarrow> nat \<Rightarrow> file_stub" where
  "plainFile p m s =
     \<lparr>name = stubName p, path = p, stat = \<lparr>size = s, ctime = 0, mtime = m, type = ''file''\<rparr>,
      deleted = False\<rparr>"

definition calmWorld :: "int \<Rightarrow> file_stub list \<Rightarrow> world" where
  "calmWorld t files =
     \<lparr>isConfigured = True, suspendFileWatching = False, shouldBeIgnored = (\<lambda>p. False),
      isFileSizeTooLarge = (\<lambda>n. False), isTargetFile = (\<lambda>p. Inr True),
      storage = vault_access, storageFiles = Inr files,
      storageFileStub = (\<lambda>p. find (\<lambda>f. path f = p) files),
      dateNow = (\<lambda>site. t), stopCalled = False\<rparr>"

definition watching :: engine where
  "watching = (newEngine None None)\<lparr>running := True\<rparr>"

text \<open>A world in which \<^verbatim>\<open>isTargetFile\<close> rejects for one path.\<close>

definition rejectingWorld :: world where
  "rejectingWorld =
     (calmWorld 0 [])\<lparr>isTargetFile :=
        (\<lambda>p. if p = ''b.md'' then Inl (Error ''rejected'') else Inr True)\<rparr>"

definition twoKnownFiles :: engine where
  "twoKnownFiles =
     watching\<lparr>snapshot := [(''a.md'', \<lparr>mtimeMs = 5, fsize = 3\<rparr>),
                            (''b.md'', \<lparr>mtimeMs = 6, fsize = 4\<rparr>)]\<rparr>"

text \<open>
  A CREATE event for \<^verbatim>\<open>a.md\<close>, and worlds in which the adapter marked that path as
  touched at time 1000.
\<close>

definition createdAgain :: file_event where
  "createdAgain =
     \<lparr>event_type = CREATE, event_file = plainFile ''a.md'' 5 3, oldPath = None,
      cachedData = None, skipBatchWait = None\<rparr>"

definition touchedWorld :: "int \<Rightarrow> world" where
  "touchedWorld now =
     (calmWorld now [plainFile ''a.md'' 5 3])\<lparr>storage := touched vault_access 1000 ''a.md''\<rparr>"

text \<open>A regular file of a given size, as an entry of the in-memory disk.\<close>

definition noteFile :: "nat \<Rightarrow> stats" where
  "noteFile n = \<lparr>nodeKind = RegularFile, st_size = n, st_ctimeMs = 10, st_mtimeMs = 20\<rparr>"

text \<open>
  Disks for the walk: the vault directory with one regular file in it, and the vault with
  a file whose name holds a backslash next to a directory \<^verbatim>\<open>a\<close> that holds the empty file
  \<^verbatim>\<open>b.md\<close>. \<open>backslashName\<close> is the name \<^verbatim>\<open>a\b.md\<close>, which a Linux directory may hold.
\<close>

definition backslashName :: string where
  "backslashName = [CHR ''a'', CHR 0x5C, CHR ''b'', CHR ''.'', CHR ''m'', CHR ''d'']"

definition vaultFolder :: stats where
  "vaultFolder = \<lparr>nodeKind = Directory, st_size = 4096, st_ctimeMs = 1, st_mtimeMs = 1\<rparr>"

definition oneFileDisk :: "string \<Rightarrow> nat \<Rightarrow> int \<Rightarrow> table_disk" where
  "oneFileDisk nm n m =
     [(''/vault'', vaultFolder),
      (''/vault/'' @ nm, \<lparr>nodeKind = RegularFile, st_size = n, st_ctimeMs = m, st_mtimeMs = m\<rparr>)]"

definition aliasDisk :: table_disk where
  "aliasDisk =
     [(''/vault'', vaultFolder),
      (''/vault/'' @ backslashName,
         \<lparr>nodeKind = RegularFile, st_size = 4, st_ctimeMs = 5, st_mtimeMs = 5\<rparr>),
      (''/vault/a'', vaultFolder),
      (''/vault/a/b.md'', \<lparr>nodeKind = RegularFile, st_size = 0, st_ctimeMs = 6, st_mtimeMs = 6\<rparr>)]"

definition emptyFileDisk :: table_disk where
  "emptyFileDisk =
     [(''/vault'', vaultFolder),
      (''/vault/a'', vaultFolder),
      (''/vault/a/b.md'', \<lparr>nodeKind = RegularFile, st_size = 0, st_ctimeMs = 6, st_mtimeMs = 6\<rparr>)]"

text \<open>What a queued item says: its type, the path and the size of its file.\<close>

definition itemSummary :: "queued_item \<Rightarrow> file_event_type \<times> string \<times> nat" where
  "itemSummary i = (item_type i, path (item_file i), size (stat (item_file i)))"

section \<open>Vocabulary of the statements\<close>

text \<open>The queued items that carry a given path, in queue order.\<close>

definition itemsFor :: "string \<Rightarrow> engine \<Rightarrow> queued_item list" where
  "itemsFor p st = filter (\<lambda>i. path (item_file i) = p) (bufferedQueuedItems st)"


text \<open>
  Two watcher states agree on a path: the same pending write, the same queued items for
  it, the same windows.
\<close>

definition sameFor :: "string \<Rightarrow> engine \<Rightarrow> engine \<Rightarrow> bool" where
  "sameFor p a b \<longleftrightarrow>
     map_get (pendingWrites a) p = map_get (pendingWrites b) p
     \<and> itemsFor p a = itemsFor p b
     \<and> awaitWriteFinishMs a = awaitWriteFinishMs b
     \<and> minCreateHoldMsForEmptyFile a = minCreateHoldMsForEmptyFile b"

text \<open>One event passes every check of \<^verbatim>\<open>appendQueue\<close> and is enqueued.\<close>

definition accepts :: "world \<Rightarrow> file_event \<Rightarrow> bool" where
  "accepts w ev \<longleftrightarrow>
     isConfigured w \<and> \<not> suspendFileWatching w
     \<and> \<not> shouldBeIgnored w (path (event_file ev))
     \<and> \<not> (event_type ev \<noteq> INTERNAL \<and> isFileSizeTooLarge w (size (stat (event_file ev)))
           \<and> (event_type ev = CREATE \<or> event_type ev = CHANGED))
     \<and> isTargetFile w (path (event_file ev)) = Inr True
     \<and> \<not> ((event_type ev = CREATE \<or> event_type ev = CHANGED)
           \<and> recentlyTouched (storage w) (dateNow w (TouchCheck (path (event_file ev))))
                (path (event_file ev)))"


text \<open>Two watcher states hold the same pending table, snapshot and windows.\<close>

definition sameTables :: "engine \<Rightarrow> engine \<Rightarrow> bool" where
  "sameTables a b \<longleftrightarrow>
     pendingWrites a = pendingWrites b \<and> snapshot a = snapshot b
     \<and> awaitWriteFinishMs a = awaitWriteFinishMs b
     \<and> minCreateHoldMsForEmptyFile a = minCreateHoldMsForEmptyFile b"

text \<open>The queued CREATE and CHANGED items that carry a given path.\<close>

definition changeItemsFor :: "string \<Rightarrow> engine \<Rightarrow> queued_item list" where
  "changeItemsFor p st =
     filter (\<lambda>i. path (item_file i) = p \<and> (item_type i = CREATE \<or> item_type i = CHANGED))
       (bufferedQueuedItems st)"

section \<open>Vocabulary of the dispatch loop\<close>

















section \<open>The poll loop, path by path\<close>

lemma sameFor_refl [simp]: "sameFor p a a" by (simp add: sameFor_def)
lemma sameFor_sym: "sameFor p a b \<Longrightarrow> sameFor p b a" by (simp add: sameFor_def)



lemma keys_map_set: "map fst (map_set m k v) = (if k \<in> fst ` set m then map fst m else map fst m @ [k])"
  by (induction m) (auto simp: rev_image_eqI)

lemma distinct_map_set: "distinct (map fst m) \<Longrightarrow> distinct (map fst (map_set m k v))"
  by (simp add: keys_map_set)

lemma distinct_map_delete: "distinct (map fst m) \<Longrightarrow> distinct (map fst (map_delete m k))"
  by (simp add: map_delete_def distinct_map_filter)




lemma appendQueueLoop_frame:
  "pendingWrites (fst (appendQueueLoop w ps st)) = pendingWrites st
   \<and> snapshot (fst (appendQueueLoop w ps st)) = snapshot st
   \<and> awaitWriteFinishMs (fst (appendQueueLoop w ps st)) = awaitWriteFinishMs st
   \<and> minCreateHoldMsForEmptyFile (fst (appendQueueLoop w ps st)) = minCreateHoldMsForEmptyFile st
   \<and> scanIntervalMs (fst (appendQueueLoop w ps st)) = scanIntervalMs st
   \<and> running (fst (appendQueueLoop w ps st)) = running st
   \<and> logs (fst (appendQueueLoop w ps st)) = logs st
   \<and> sleeps (fst (appendQueueLoop w ps st)) = sleeps st"
  by (induction w ps st rule: appendQueueLoop.induct) (auto simp: enqueue_def split: sum.splits)

lemma appendQueue_frame:
  "pendingWrites (fst (appendQueue w ps st)) = pendingWrites st
   \<and> snapshot (fst (appendQueue w ps st)) = snapshot st
   \<and> awaitWriteFinishMs (fst (appendQueue w ps st)) = awaitWriteFinishMs st
   \<and> minCreateHoldMsForEmptyFile (fst (appendQueue w ps st)) = minCreateHoldMsForEmptyFile st
   \<and> scanIntervalMs (fst (appendQueue w ps st)) = scanIntervalMs st
   \<and> running (fst (appendQueue w ps st)) = running st
   \<and> logs (fst (appendQueue w ps st)) = logs st
   \<and> sleeps (fst (appendQueue w ps st)) = sleeps st"
  by (simp add: appendQueue_def appendQueueLoop_frame)

lemma appendQueue_frameD:
  "appendQueue w ps st = (st', r) \<Longrightarrow>
   pendingWrites st' = pendingWrites st
   \<and> snapshot st' = snapshot st
   \<and> awaitWriteFinishMs st' = awaitWriteFinishMs st
   \<and> minCreateHoldMsForEmptyFile st' = minCreateHoldMsForEmptyFile st
   \<and> scanIntervalMs st' = scanIntervalMs st
   \<and> running st' = running st
   \<and> logs st' = logs st
   \<and> sleeps st' = sleeps st"
  using appendQueue_frame [of w ps st] by simp

lemma appendQueue_single_items:
  "bufferedQueuedItems (fst (appendQueue w [ev] st))
     = bufferedQueuedItems st @ (if accepts w ev then [toItem ev] else [])"
  by (auto simp: appendQueue_def accepts_def enqueue_def split: sum.splits)

lemma appendQueue_single_ok:
  "snd (appendQueue w [ev] st) = None \<longleftrightarrow>
     \<not> (isConfigured w \<and> \<not> suspendFileWatching w \<and> \<not> shouldBeIgnored w (path (event_file ev))
        \<and> \<not> (event_type ev \<noteq> INTERNAL \<and> isFileSizeTooLarge w (size (stat (event_file ev)))
           \<and> (event_type ev = CREATE \<or> event_type ev = CHANGED))
        \<and> (\<exists>e. isTargetFile w (path (event_file ev)) = Inl e))"
  by (auto simp: appendQueue_def split: sum.splits)



lemma flushEntry_frame:
  "snapshot (fst (flushEntry w nxt q pwr st)) = snapshot st
   \<and> awaitWriteFinishMs (fst (flushEntry w nxt q pwr st)) = awaitWriteFinishMs st
   \<and> minCreateHoldMsForEmptyFile (fst (flushEntry w nxt q pwr st)) = minCreateHoldMsForEmptyFile st
   \<and> scanIntervalMs (fst (flushEntry w nxt q pwr st)) = scanIntervalMs st
   \<and> running (fst (flushEntry w nxt q pwr st)) = running st
   \<and> logs (fst (flushEntry w nxt q pwr st)) = logs st
   \<and> sleeps (fst (flushEntry w nxt q pwr st)) = sleeps st"
  by (auto simp: flushEntry_def split: option.splits prod.splits dest!: appendQueue_frameD)

lemma flushEntry_distinct:
  "distinct (map fst (pendingWrites st))
     \<Longrightarrow> distinct (map fst (pendingWrites (fst (flushEntry w nxt q pwr st))))"
  by (auto simp: flushEntry_def distinct_map_set distinct_map_delete
      split: option.splits prod.splits dest!: appendQueue_frameD)



lemma flushPending_frame:
  "snapshot (fst (flushPending w nxt rest st)) = snapshot st
   \<and> awaitWriteFinishMs (fst (flushPending w nxt rest st)) = awaitWriteFinishMs st
   \<and> minCreateHoldMsForEmptyFile (fst (flushPending w nxt rest st)) = minCreateHoldMsForEmptyFile st
   \<and> scanIntervalMs (fst (flushPending w nxt rest st)) = scanIntervalMs st
   \<and> running (fst (flushPending w nxt rest st)) = running st
   \<and> logs (fst (flushPending w nxt rest st)) = logs st
   \<and> sleeps (fst (flushPending w nxt rest st)) = sleeps st"
proof (induction rest arbitrary: st)
  case Nil
  then show ?case by simp
next
  case (Cons e rest)
  obtain q pwr where e: "e = (q, pwr)" by (cases e)
  obtain st' r where f: "flushEntry w nxt q pwr st = (st', r)" by fastforce
  from flushEntry_frame [of w nxt q pwr st] f Cons.IH [of st'] e
  show ?case by (cases r) simp_all
qed

lemma flushPending_distinct:
  "distinct (map fst (pendingWrites st))
     \<Longrightarrow> distinct (map fst (pendingWrites (fst (flushPending w nxt rest st))))"
proof (induction rest arbitrary: st)
  case Nil
  then show ?case by simp
next
  case (Cons e rest)
  obtain q pwr where e: "e = (q, pwr)" by (cases e)
  obtain st' r where f: "flushEntry w nxt q pwr st = (st', r)" by fastforce
  from flushEntry_distinct [OF Cons.prems, of w nxt q pwr] f have "distinct (map fst (pendingWrites st'))"
    by simp
  with Cons.IH [of st'] f e show ?case by (cases r) simp_all
qed



lemma detectDeletions_frame:
  "pendingWrites (fst (detectDeletions w nxt prevl st)) = pendingWrites st
   \<and> snapshot (fst (detectDeletions w nxt prevl st)) = snapshot st
   \<and> awaitWriteFinishMs (fst (detectDeletions w nxt prevl st)) = awaitWriteFinishMs st
   \<and> minCreateHoldMsForEmptyFile (fst (detectDeletions w nxt prevl st)) = minCreateHoldMsForEmptyFile st
   \<and> scanIntervalMs (fst (detectDeletions w nxt prevl st)) = scanIntervalMs st
   \<and> running (fst (detectDeletions w nxt prevl st)) = running st
   \<and> logs (fst (detectDeletions w nxt prevl st)) = logs st
   \<and> sleeps (fst (detectDeletions w nxt prevl st)) = sleeps st"
proof (induction prevl arbitrary: st)
  case Nil
  then show ?case by simp
next
  case (Cons e prevl)
  obtain q info where e: "e = (q, info)" by (cases e)
  obtain st' r where f: "appendQueue w [deleteEvent w q info] st = (st', r)" by fastforce
  from appendQueue_frameD [OF f] Cons.IH [of st'] Cons.IH [of st] e f
  show ?case by (cases r) simp_all
qed




lemma detectOne_distinct:
  "distinct (map fst pw) \<Longrightarrow> distinct (map fst (detectOne w prev q info pw))"
  by (simp add: detectOne_def distinct_map_set split: option.splits)



lemma detectChanges_distinct:
  "distinct (map fst pw) \<Longrightarrow> distinct (map fst (detectChanges w prev nxtl pw))"
  by (induction nxtl arbitrary: pw) (auto simp: detectOne_distinct)




lemma pollTick_Inr:
  assumes "storageFiles w = Inr files"
    and "detectDeletions w (scanSnapshot files) (snapshot st) st = (d1, r1)"
    and "flushPending w (scanSnapshot files)
           (detectChanges w (snapshot st) (scanSnapshot files) (pendingWrites d1))
           (d1\<lparr>pendingWrites :=
                 detectChanges w (snapshot st) (scanSnapshot files) (pendingWrites d1)\<rparr>)
         = (f3, r3)"
  shows "pollTick w st =
      (case r1 of Some e \<Rightarrow> (d1, Some e)
       | None \<Rightarrow> (case r3 of Some e \<Rightarrow> (f3, Some e)
                   | None \<Rightarrow> (f3\<lparr>snapshot := scanSnapshot files\<rparr>, None)))"
  using assms by (simp add: pollTick_def Let_def split: option.splits)

lemma pollTick_frame:
  "awaitWriteFinishMs (fst (pollTick w st)) = awaitWriteFinishMs st
   \<and> minCreateHoldMsForEmptyFile (fst (pollTick w st)) = minCreateHoldMsForEmptyFile st
   \<and> scanIntervalMs (fst (pollTick w st)) = scanIntervalMs st
   \<and> running (fst (pollTick w st)) = running st
   \<and> logs (fst (pollTick w st)) = logs st
   \<and> sleeps (fst (pollTick w st)) = sleeps st"
proof (cases "storageFiles w")
  case (Inl e)
  then show ?thesis by (simp add: pollTick_def)
next
  case (Inr files)
  define nxt where "nxt = scanSnapshot files"
  obtain d1 r1 where D: "detectDeletions w nxt (snapshot st) st = (d1, r1)" by fastforce
  define d2 where "d2 = d1\<lparr>pendingWrites := detectChanges w (snapshot st) nxt (pendingWrites d1)\<rparr>"
  obtain f3 r3 where F: "flushPending w nxt (pendingWrites d2) d2 = (f3, r3)" by fastforce
  from detectDeletions_frame [of w nxt "snapshot st" st] D
  have 1: "awaitWriteFinishMs d1 = awaitWriteFinishMs st
     \<and> minCreateHoldMsForEmptyFile d1 = minCreateHoldMsForEmptyFile st
     \<and> scanIntervalMs d1 = scanIntervalMs st \<and> running d1 = running st
     \<and> logs d1 = logs st \<and> sleeps d1 = sleeps st" by simp
  from flushPending_frame [of w nxt "pendingWrites d2" d2] F
  have 3: "awaitWriteFinishMs f3 = awaitWriteFinishMs d2
     \<and> minCreateHoldMsForEmptyFile f3 = minCreateHoldMsForEmptyFile d2
     \<and> scanIntervalMs f3 = scanIntervalMs d2 \<and> running f3 = running d2
     \<and> logs f3 = logs d2 \<and> sleeps f3 = sleeps d2" by simp
  have "pollTick w st =
      (case r1 of Some e \<Rightarrow> (d1, Some e)
       | None \<Rightarrow> (case r3 of Some e \<Rightarrow> (f3, Some e) | None \<Rightarrow> (f3\<lparr>snapshot := nxt\<rparr>, None)))"
    using pollTick_Inr [OF Inr, of st d1 r1 f3 r3] D F unfolding nxt_def d2_def by simp
  with 1 3 show ?thesis by (cases r1; cases r3) (simp_all add: d2_def)
qed

lemma pollTick_snapshot:
  "snapshot (fst (pollTick w st)) =
     (case snd (pollTick w st) of
        Some e \<Rightarrow> snapshot st
      | None \<Rightarrow> (case storageFiles w of Inr files \<Rightarrow> scanSnapshot files | Inl e \<Rightarrow> snapshot st))"
proof (cases "storageFiles w")
  case (Inl e)
  then show ?thesis by (simp add: pollTick_def)
next
  case (Inr files)
  define nxt where "nxt = scanSnapshot files"
  obtain d1 r1 where D: "detectDeletions w nxt (snapshot st) st = (d1, r1)" by fastforce
  define d2 where "d2 = d1\<lparr>pendingWrites := detectChanges w (snapshot st) nxt (pendingWrites d1)\<rparr>"
  obtain f3 r3 where F: "flushPending w nxt (pendingWrites d2) d2 = (f3, r3)" by fastforce
  from detectDeletions_frame [of w nxt "snapshot st" st] D
  have 1: "snapshot d1 = snapshot st" by simp
  from flushPending_frame [of w nxt "pendingWrites d2" d2] F
  have 3: "snapshot f3 = snapshot d2" by simp
  have "pollTick w st =
      (case r1 of Some e \<Rightarrow> (d1, Some e)
       | None \<Rightarrow> (case r3 of Some e \<Rightarrow> (f3, Some e) | None \<Rightarrow> (f3\<lparr>snapshot := nxt\<rparr>, None)))"
    using pollTick_Inr [OF Inr, of st d1 r1 f3 r3] D F unfolding nxt_def d2_def by simp
  with 1 3 Inr show ?thesis by (cases r1; cases r3) (simp_all add: d2_def nxt_def)
qed

lemma pollTick_distinct:
  assumes "distinct (map fst (pendingWrites st))"
  shows "distinct (map fst (pendingWrites (fst (pollTick w st))))"
proof (cases "storageFiles w")
  case (Inl e)
  then show ?thesis using assms by (simp add: pollTick_def)
next
  case (Inr files)
  define nxt where "nxt = scanSnapshot files"
  obtain d1 r1 where D: "detectDeletions w nxt (snapshot st) st = (d1, r1)" by fastforce
  define d2 where "d2 = d1\<lparr>pendingWrites := detectChanges w (snapshot st) nxt (pendingWrites d1)\<rparr>"
  obtain f3 r3 where F: "flushPending w nxt (pendingWrites d2) d2 = (f3, r3)" by fastforce
  from detectDeletions_frame [of w nxt "snapshot st" st] D
  have 1: "pendingWrites d1 = pendingWrites st" by simp
  then have 2: "distinct (map fst (pendingWrites d2))"
    using assms by (simp add: d2_def detectChanges_distinct)
  from flushPending_distinct [OF 2, of w nxt "pendingWrites d2"] F
  have 3: "distinct (map fst (pendingWrites f3))" by simp
  have "pollTick w st =
      (case r1 of Some e \<Rightarrow> (d1, Some e)
       | None \<Rightarrow> (case r3 of Some e \<Rightarrow> (f3, Some e) | None \<Rightarrow> (f3\<lparr>snapshot := nxt\<rparr>, None)))"
    using pollTick_Inr [OF Inr, of st d1 r1 f3 r3] D F unfolding nxt_def d2_def by simp
  with 1 3 assms show ?thesis by (cases r1; cases r3) simp_all
qed


section \<open>The touched marker and the poll loop\<close>

lemma touched_recent:
  "t \<noteq> 0 \<Longrightarrow> recentlyTouched (touched fa t p) now p \<longleftrightarrow> now - t < 5000"
  by (simp add: recentlyTouched_def touched_def)

lemma appendQueueLoop_suppressed:
  assumes "recentlyTouched (storage w) (dateNow w (TouchCheck p)) p"
  shows "filter (\<lambda>i. path (item_file i) = p \<and> (item_type i = CREATE \<or> item_type i = CHANGED))
           (bufferedQueuedItems (fst (appendQueueLoop w ps st)))
       = filter (\<lambda>i. path (item_file i) = p \<and> (item_type i = CREATE \<or> item_type i = CHANGED))
           (bufferedQueuedItems st)"
  using assms
  by (induction w ps st rule: appendQueueLoop.induct)
     (auto simp: enqueue_def toItem_def split: sum.splits)

lemma appendQueue_suppressed:
  assumes "recentlyTouched (storage w) (dateNow w (TouchCheck p)) p"
  shows "filter (\<lambda>i. path (item_file i) = p \<and> (item_type i = CREATE \<or> item_type i = CHANGED))
           (bufferedQueuedItems (fst (appendQueue w ps st)))
       = filter (\<lambda>i. path (item_file i) = p \<and> (item_type i = CREATE \<or> item_type i = CHANGED))
           (bufferedQueuedItems st)"
  using appendQueueLoop_suppressed [OF assms] by (simp add: appendQueue_def)

lemma appendQueueLoop_storage_free:
  "snd (appendQueueLoop (w\<lparr>storage := fa\<rparr>) ps s1) = snd (appendQueueLoop w ps s2)"
proof (induction ps arbitrary: s1 s2)
  case Nil
  then show ?case by simp
next
  case (Cons param ps)
  show ?case
    by (cases "isTargetFile w (path (event_file param))") (auto simp: Cons.IH)
qed

lemma appendQueue_storage_free:
  "snd (appendQueue (w\<lparr>storage := fa\<rparr>) ps a) = snd (appendQueue w ps b)"
  by (simp add: appendQueue_def appendQueueLoop_storage_free)

lemma appendQueue_sameTables:
  "sameTables a b \<Longrightarrow> sameTables (fst (appendQueue w' ps a)) (fst (appendQueue w ps b))"
  by (simp add: sameTables_def appendQueue_frame)

lemma flushEntry_storage_free:
  assumes "sameTables s1 s2"
  shows "sameTables (fst (flushEntry (w\<lparr>storage := fa\<rparr>) nxt q pwr s1))
                    (fst (flushEntry w nxt q pwr s2))
     \<and> snd (flushEntry (w\<lparr>storage := fa\<rparr>) nxt q pwr s1) = snd (flushEntry w nxt q pwr s2)"
proof -
  have t: "pendingWrites s1 = pendingWrites s2" "snapshot s1 = snapshot s2"
     "awaitWriteFinishMs s1 = awaitWriteFinishMs s2"
     "minCreateHoldMsForEmptyFile s1 = minCreateHoldMsForEmptyFile s2"
    using assms by (simp_all add: sameTables_def)
  show ?thesis
  proof (cases "storageFileStub w q")
    case None
    then show ?thesis using t by (auto simp: flushEntry_def sameTables_def split: option.splits)
  next
    case (Some stub)
    obtain a ra where A: "appendQueue (w\<lparr>storage := fa\<rparr>) [stableEvent pwr stub] s1 = (a, ra)"
      by fastforce
    obtain b rb where B: "appendQueue w [stableEvent pwr stub] s2 = (b, rb)" by fastforce
    from appendQueue_storage_free [where w=w and fa=fa and ps="[stableEvent pwr stub]" and a=s1 and b=s2] A B
    have r: "ra = rb" by simp
    from appendQueue_sameTables [OF assms, where w'="w\<lparr>storage := fa\<rparr>" and ps="[stableEvent pwr stub]" and w=w] A B
    have ab: "sameTables a b" by simp
    from appendQueue_frameD [OF A] appendQueue_frameD [OF B] t
    have f: "pendingWrites a = pendingWrites s2" "pendingWrites b = pendingWrites s2"
      "snapshot a = snapshot s2" "snapshot b = snapshot s2"
      "awaitWriteFinishMs a = awaitWriteFinishMs s2" "awaitWriteFinishMs b = awaitWriteFinishMs s2"
      "minCreateHoldMsForEmptyFile a = minCreateHoldMsForEmptyFile s2"
      "minCreateHoldMsForEmptyFile b = minCreateHoldMsForEmptyFile s2"
      by simp_all
    show ?thesis using t Some A B r f
      by (auto simp: flushEntry_def sameTables_def split: option.splits)
  qed
qed

lemma flushPending_storage_free:
  "sameTables s1 s2 \<Longrightarrow>
     sameTables (fst (flushPending (w\<lparr>storage := fa\<rparr>) nxt rest s1))
                (fst (flushPending w nxt rest s2))
     \<and> snd (flushPending (w\<lparr>storage := fa\<rparr>) nxt rest s1) = snd (flushPending w nxt rest s2)"
proof (induction rest arbitrary: s1 s2)
  case Nil
  then show ?case by simp
next
  case (Cons e rest)
  obtain q pwr where e: "e = (q, pwr)" by (cases e)
  obtain a ra where A: "flushEntry (w\<lparr>storage := fa\<rparr>) nxt q pwr s1 = (a, ra)" by fastforce
  obtain b rb where B: "flushEntry w nxt q pwr s2 = (b, rb)" by fastforce
  from flushEntry_storage_free [OF Cons.prems, where w=w and fa=fa and nxt=nxt and q=q and pwr=pwr] A B
  have ab: "sameTables a b" "ra = rb" by simp_all
  from Cons.IH [OF ab(1)] A B ab e show ?case by (cases rb) simp_all
qed

lemma detectDeletions_storage_free:
  "sameTables s1 s2 \<Longrightarrow>
     sameTables (fst (detectDeletions (w\<lparr>storage := fa\<rparr>) nxt prevl s1))
                (fst (detectDeletions w nxt prevl s2))
     \<and> snd (detectDeletions (w\<lparr>storage := fa\<rparr>) nxt prevl s1)
         = snd (detectDeletions w nxt prevl s2)"
proof (induction prevl arbitrary: s1 s2)
  case Nil
  then show ?case by simp
next
  case (Cons e prevl)
  obtain q info where e: "e = (q, info)" by (cases e)
  have de: "deleteEvent (w\<lparr>storage := fa\<rparr>) q info = deleteEvent w q info"
    by (simp add: deleteEvent_def)
  obtain a ra where A: "appendQueue (w\<lparr>storage := fa\<rparr>) [deleteEvent w q info] s1 = (a, ra)"
    by fastforce
  obtain b rb where B: "appendQueue w [deleteEvent w q info] s2 = (b, rb)" by fastforce
  from appendQueue_storage_free [where w=w and fa=fa and ps="[deleteEvent w q info]" and a=s1 and b=s2] A B
  have r: "ra = rb" by simp
  from appendQueue_sameTables [OF Cons.prems, where w'="w\<lparr>storage := fa\<rparr>" and ps="[deleteEvent w q info]" and w=w]
    A B have ab: "sameTables a b" by simp
  from Cons.IH [OF ab] Cons.IH [OF Cons.prems] A B r e de ab show ?case by (cases rb) simp_all
qed

lemma detectOne_storage_free:
  "detectOne (w\<lparr>storage := fa\<rparr>) prev q info pw = detectOne w prev q info pw"
proof -
  have h: "\<And>x. refreshExisting (w\<lparr>storage := fa\<rparr>) q info x = refreshExisting w q info x"
    "\<And>k. firstPending (w\<lparr>storage := fa\<rparr>) q info k = firstPending w q info k"
    by (simp_all add: refreshExisting_def firstPending_def)
  show ?thesis by (simp add: detectOne_def h split: option.splits)
qed

lemma detectChanges_storage_free:
  "detectChanges (w\<lparr>storage := fa\<rparr>) prev nxtl pw = detectChanges w prev nxtl pw"
  by (induction nxtl arbitrary: pw) (auto simp: detectOne_storage_free)

lemma pollTick_storage_free:
  "pendingWrites (fst (pollTick (w\<lparr>storage := fa\<rparr>) st)) = pendingWrites (fst (pollTick w st))
   \<and> snapshot (fst (pollTick (w\<lparr>storage := fa\<rparr>) st)) = snapshot (fst (pollTick w st))
   \<and> snd (pollTick (w\<lparr>storage := fa\<rparr>) st) = snd (pollTick w st)"
proof (cases "storageFiles w")
  case (Inl e)
  then show ?thesis by (simp add: pollTick_def)
next
  case (Inr files)
  let ?w = "w\<lparr>storage := fa\<rparr>"
  let ?nxt = "scanSnapshot files"
  have Inr': "storageFiles ?w = Inr files" using Inr by simp
  obtain a1 ra1 where A1: "detectDeletions ?w ?nxt (snapshot st) st = (a1, ra1)" by fastforce
  obtain b1 rb1 where B1: "detectDeletions w ?nxt (snapshot st) st = (b1, rb1)" by fastforce
  have s0: "sameTables st st" by (simp add: sameTables_def)
  from detectDeletions_storage_free [OF s0, where w=w and fa=fa and nxt="?nxt" and prevl="snapshot st"] A1 B1
  have 1: "sameTables a1 b1" "ra1 = rb1" by simp_all
  let ?a2 = "a1\<lparr>pendingWrites := detectChanges ?w (snapshot st) ?nxt (pendingWrites a1)\<rparr>"
  let ?b2 = "b1\<lparr>pendingWrites := detectChanges w (snapshot st) ?nxt (pendingWrites b1)\<rparr>"
  have 2: "sameTables ?a2 ?b2" "pendingWrites ?a2 = pendingWrites ?b2"
    using 1(1) by (simp_all add: sameTables_def detectChanges_storage_free)
  obtain a3 ra3 where A3: "flushPending ?w ?nxt (pendingWrites ?a2) ?a2 = (a3, ra3)" by fastforce
  obtain b3 rb3 where B3: "flushPending w ?nxt (pendingWrites ?b2) ?b2 = (b3, rb3)" by fastforce
  from flushPending_storage_free [OF 2(1), where w=w and fa=fa and nxt="?nxt" and rest="pendingWrites ?b2"] A3 B3 2(2)
  have 3: "sameTables a3 b3" "ra3 = rb3" by simp_all
  have A: "pollTick ?w st =
      (case ra1 of Some e \<Rightarrow> (a1, Some e)
       | None \<Rightarrow> (case ra3 of Some e \<Rightarrow> (a3, Some e)
                   | None \<Rightarrow> (a3\<lparr>snapshot := ?nxt\<rparr>, None)))"
    using pollTick_Inr [OF Inr' A1, of a3 ra3] A3 by simp
  have B: "pollTick w st =
      (case rb1 of Some e \<Rightarrow> (b1, Some e)
       | None \<Rightarrow> (case rb3 of Some e \<Rightarrow> (b3, Some e)
                   | None \<Rightarrow> (b3\<lparr>snapshot := ?nxt\<rparr>, None)))"
    using pollTick_Inr [OF Inr B1, of b3 rb3] B3 by simp
  from A B 1 3 show ?thesis
    by (cases rb1; cases rb3) (simp_all add: sameTables_def)
qed

lemma flushEntry_suppressed:
  assumes "recentlyTouched (storage w) (dateNow w (TouchCheck p)) p"
  shows "changeItemsFor p (fst (flushEntry w nxt q pwr st)) = changeItemsFor p st"
proof -
  have "\<And>ev a r. appendQueue w [ev] st = (a, r) \<Longrightarrow> changeItemsFor p a = changeItemsFor p st"
  proof -
    fix ev a r
    assume "appendQueue w [ev] st = (a, r)"
    with appendQueue_suppressed [OF assms, of "[ev]" st]
    show "changeItemsFor p a = changeItemsFor p st" by (simp add: changeItemsFor_def)
  qed
  then show ?thesis
    by (auto simp: flushEntry_def changeItemsFor_def split: option.splits prod.splits)
qed

lemma flushPending_suppressed:
  assumes "recentlyTouched (storage w) (dateNow w (TouchCheck p)) p"
  shows "changeItemsFor p (fst (flushPending w nxt rest st)) = changeItemsFor p st"
proof (induction rest arbitrary: st)
  case Nil
  then show ?case by simp
next
  case (Cons e rest)
  obtain q pwr where e: "e = (q, pwr)" by (cases e)
  obtain st' r where f: "flushEntry w nxt q pwr st = (st', r)" by fastforce
  from flushEntry_suppressed [OF assms, of nxt q pwr st] f
  have "changeItemsFor p st' = changeItemsFor p st" by simp
  with Cons.IH [of st'] f e show ?case by (cases r) simp_all
qed

lemma detectDeletions_suppressed:
  assumes "recentlyTouched (storage w) (dateNow w (TouchCheck p)) p"
  shows "changeItemsFor p (fst (detectDeletions w nxt prevl st)) = changeItemsFor p st"
proof (induction prevl arbitrary: st)
  case Nil
  then show ?case by simp
next
  case (Cons e prevl)
  obtain q info where e: "e = (q, info)" by (cases e)
  obtain st' r where f: "appendQueue w [deleteEvent w q info] st = (st', r)" by fastforce
  from appendQueue_suppressed [OF assms, of "[deleteEvent w q info]" st] f
  have "changeItemsFor p st' = changeItemsFor p st" by (simp add: changeItemsFor_def)
  with Cons.IH [of st'] Cons.IH [of st] f e show ?case by (cases r) simp_all
qed

lemma pollTick_suppressed:
  assumes "recentlyTouched (storage w) (dateNow w (TouchCheck p)) p"
  shows "changeItemsFor p (fst (pollTick w st)) = changeItemsFor p st"
proof (cases "storageFiles w")
  case (Inl e)
  then show ?thesis by (simp add: pollTick_def)
next
  case (Inr files)
  let ?nxt = "scanSnapshot files"
  obtain d1 r1 where D: "detectDeletions w ?nxt (snapshot st) st = (d1, r1)" by fastforce
  let ?d2 = "d1\<lparr>pendingWrites := detectChanges w (snapshot st) ?nxt (pendingWrites d1)\<rparr>"
  obtain f3 r3 where F: "flushPending w ?nxt (pendingWrites ?d2) ?d2 = (f3, r3)" by fastforce
  from detectDeletions_suppressed [OF assms, of ?nxt "snapshot st" st] D
  have 1: "changeItemsFor p d1 = changeItemsFor p st" by simp
  from flushPending_suppressed [OF assms, of ?nxt "pendingWrites ?d2" ?d2] F
  have 3: "changeItemsFor p f3 = changeItemsFor p ?d2" by simp
  have 2: "changeItemsFor p ?d2 = changeItemsFor p d1" by (simp add: changeItemsFor_def)
  have "pollTick w st =
      (case r1 of Some e \<Rightarrow> (d1, Some e)
       | None \<Rightarrow> (case r3 of Some e \<Rightarrow> (f3, Some e)
                   | None \<Rightarrow> (f3\<lparr>snapshot := ?nxt\<rparr>, None)))"
    using pollTick_Inr [OF Inr D, of f3 r3] F by simp
  with 1 2 3 show ?thesis by (cases r1; cases r3) (simp_all add: changeItemsFor_def)
qed

section \<open>The in-memory disk and two names in the trash\<close>

lemma table_api_fields:
  "fs_stat table_api d p = (case map_of d p of None \<Rightarrow> Inl ENOENT | Some st \<Rightarrow> Inr st)"
  "fs_rm table_api d p r =
     Inr (filter (\<lambda>e. fst e \<noteq> p \<and> \<not> (r \<and> take (length p + 1) (fst e) = p @ ''/'')) d)"
  "fs_rename table_api d a b =
     (case map_of d a of
        None \<Rightarrow> Inl ENOENT
      | Some st \<Rightarrow> Inr ((b, st) # filter (\<lambda>e. fst e \<noteq> a \<and> fst e \<noteq> b) d))"
  "fs_mkdir table_api d p = Inr d"
  "path_join table_api a b = a @ ''/'' @ b"
  "sha1_hex table_api = sha1_hex_of"
  by (simp_all add: table_api_def)

lemma trashName_first:
  "trashName table_api ''notes/n4785.md'' 1700000000537 = ''notes__n4785.md.c32e87f1''"
  by code_simp

lemma trashName_second:
  "trashName table_api ''notes/n4785.md'' 1700000000917 = ''notes__n4785.md.c32e87f1''"
  by code_simp

lemma normalize_note: "normalizeVaultRelative ''notes/n4785.md'' = ''notes/n4785.md''"
  by (simp add: normalizeVaultRelative_def)

text \<open>The equations that evaluate a concrete run.\<close>

lemmas eval_defs =
  calmWorld_def plainFile_def watching_def newEngine_def rejectingWorld_def twoKnownFiles_def
  pollIteration_def pollTick_def scanSnapshot_def map_has_def map_get_def map_delete_def
  detectOne_def firstPending_def refreshExisting_def flushEntry_def stableEvent_def
  appendQueue_def deleteEvent_def recentlyTouched_def vault_access_def enqueue_def toItem_def
  stubName_def lastSegment_def Let_def

section \<open>The dispatch loop, step by step\<close>




























section \<open>Runs of the dispatch loop\<close>




lemma performAll_append:
  "performAll (as @ bs) s = (case performAll as s of None \<Rightarrow> None | Some s' \<Rightarrow> performAll bs s')"
  by (induction as arbitrary: s) (auto split: option.splits)












section \<open>The storage adapter: absent results\<close>

text \<open>
  C10. \<open>stat\<close> and the synchronous \<open>getFileStub\<close> never throw, and they return the
  absent result both when \<^verbatim>\<open>fs.stat\<close> fails (the path does not exist) and when the
  path exists and is not a regular file; a result with metadata comes from a regular
  file only, and is typed \<^verbatim>\<open>"file"\<close>.
\<close>

theorem stat_absent_unless_regular_file:
  "(\<exists>r. stat_node api fa disk p = Inr r) \<and> (\<exists>r. getFileStub api fa disk p = Inr r)
   \<and> ((\<exists>e. fs_stat api disk (abs_path api fa (normalizeVaultRelative p)) = Inl e)
        \<longrightarrow> stat_node api fa disk p = Inr None \<and> getFileStub api fa disk p = Inr None)
   \<and> (\<forall>st. fs_stat api disk (abs_path api fa (normalizeVaultRelative p)) = Inr st \<and> \<not> isFile st
        \<longrightarrow> stat_node api fa disk p = Inr None \<and> getFileStub api fa disk p = Inr None)
   \<and> (\<forall>m. stat_node api fa disk p = Inr (Some m)
        \<longrightarrow> (\<exists>st. fs_stat api disk (abs_path api fa (normalizeVaultRelative p)) = Inr st
                  \<and> isFile st \<and> type m = ''file'' \<and> size m = st_size st))
   \<and> (\<forall>s. getFileStub api fa disk p = Inr (Some s)
        \<longrightarrow> (\<exists>st. fs_stat api disk (abs_path api fa (normalizeVaultRelative p)) = Inr st
                  \<and> isFile st \<and> type (stat s) = ''file'' \<and> size (stat s) = st_size st))"
  by (auto simp: stat_node_def getFileStub_def Let_def split: sum.splits)

theorem stat_absent_unless_regular_file_witness:
  "stat_node table_api vault_access sample_disk ''gone.md'' = Inr None
   \<and> getFileStub table_api vault_access sample_disk ''gone.md'' = Inr None
   \<and> fs_stat table_api sample_disk
         (abs_path table_api vault_access (normalizeVaultRelative ''gone.md'')) = Inl ENOENT
   \<and> stat_node table_api vault_access sample_disk ''/notes'' = Inr None
   \<and> getFileStub table_api vault_access sample_disk ''/notes'' = Inr None
   \<and> (\<exists>st. fs_stat table_api sample_disk
               (abs_path table_api vault_access (normalizeVaultRelative ''/notes'')) = Inr st
             \<and> \<not> isFile st)
   \<and> (\<exists>m. stat_node table_api vault_access sample_disk ''notes/a.md'' = Inr (Some m)
             \<and> type m = ''file'' \<and> size m = 7)"
proof -
  have a: "fs_stat table_api sample_disk
             (abs_path table_api vault_access (normalizeVaultRelative ''gone.md'')) = Inl ENOENT"
    by (simp add: table_api_def sample_disk_def abs_path_def vault_access_def
        normalizeVaultRelative_def)
  have b: "fs_stat table_api sample_disk
             (abs_path table_api vault_access (normalizeVaultRelative ''/notes''))
           = Inr \<lparr>nodeKind = Directory, st_size = 4096, st_ctimeMs = 10, st_mtimeMs = 20\<rparr>"
    by (simp add: table_api_def sample_disk_def abs_path_def vault_access_def
        normalizeVaultRelative_def)
  have c: "stat_node table_api vault_access sample_disk ''notes/a.md''
           = Inr (Some \<lparr>size = 7, ctime = 11, mtime = 21, type = ''file''\<rparr>)"
    by (simp add: stat_node_def table_api_def sample_disk_def abs_path_def vault_access_def
        normalizeVaultRelative_def isFile_def)
  from a stat_absent_unless_regular_file [of table_api vault_access sample_disk "''gone.md''"]
  have 1: "stat_node table_api vault_access sample_disk ''gone.md'' = Inr None
     \<and> getFileStub table_api vault_access sample_disk ''gone.md'' = Inr None"
    by blast
  from b stat_absent_unless_regular_file [of table_api vault_access sample_disk "''/notes''"]
  have 2: "stat_node table_api vault_access sample_disk ''/notes'' = Inr None
     \<and> getFileStub table_api vault_access sample_disk ''/notes'' = Inr None"
    by (simp add: isFile_def)
  from c stat_absent_unless_regular_file [of table_api vault_access sample_disk "''notes/a.md''"]
  have 3: "\<exists>m. stat_node table_api vault_access sample_disk ''notes/a.md'' = Inr (Some m)
     \<and> type m = ''file'' \<and> size m = 7"
    by simp
  from 1 2 3 a b show ?thesis by (simp add: isFile_def)
qed

section \<open>The queue: a batch submitted while unconfigured or suspended\<close>

text \<open>
  C9. When the settings are not configured, or file watching is suspended,
  \<open>appendQueue\<close> returns with the watcher exactly as it was: nothing is enqueued, no run
  of the queue is started (so no wait handle is made), the file list is not marked.
\<close>

theorem appendQueue_discards_batch:
  "\<not> isConfigured w \<or> suspendFileWatching w \<Longrightarrow> appendQueue w params st = (st, None)"
  by (auto simp: appendQueue_def)

theorem appendQueue_discards_batch_witness:
  "appendQueue ((calmWorld 0 [])\<lparr>suspendFileWatching := True\<rparr>)
       [\<lparr>event_type = CREATE, event_file = plainFile ''a.md'' 5 3, oldPath = None,
          cachedData = None, skipBatchWait = None\<rparr>] watching
     = (watching, None)
   \<and> suspendFileWatching ((calmWorld 0 [])\<lparr>suspendFileWatching := True\<rparr>)
   \<and> bufferedQueuedItems (fst (appendQueue (calmWorld 0 [])
       [\<lparr>event_type = CREATE, event_file = plainFile ''a.md'' 5 3, oldPath = None,
          cachedData = None, skipBatchWait = None\<rparr>] watching)) \<noteq> []"
proof -
  have s: "suspendFileWatching ((calmWorld 0 [])\<lparr>suspendFileWatching := True\<rparr>)" by simp
  have n: "bufferedQueuedItems (fst (appendQueue (calmWorld 0 [])
       [\<lparr>event_type = CREATE, event_file = plainFile ''a.md'' 5 3, oldPath = None,
          cachedData = None, skipBatchWait = None\<rparr>] watching)) \<noteq> []"
    by (simp add: appendQueue_def calmWorld_def plainFile_def recentlyTouched_def
        vault_access_def enqueue_def)
  from s n appendQueue_discards_batch [of "(calmWorld 0 [])\<lparr>suspendFileWatching := True\<rparr>"]
  show ?thesis by simp
qed

section \<open>The poll loop: a pass that fails\<close>

text \<open>
  C8. When a pass of the poll loop throws (the walk fails, or a check rejects while the
  differences are handled), the iteration of the loop around it leaves the snapshot as it
  was before the pass, appends the two log entries of the \<^verbatim>\<open>catch\<close> (the text and the
  error) to the log, awaits \<open>scanIntervalMs\<close>, and clears \<open>running\<close> only if \<^verbatim>\<open>stop()\<close>
  was called; a running loop then goes on with the next pass from exactly that state, and
  a loop that is not running does nothing. When a pass completes, nothing is logged and the
  snapshot after the iteration is the new scan as a whole. So the snapshot is replaced all
  at once or not at all.
\<close>

theorem poll_failure_keeps_snapshot:
  "(\<forall>e. snd (pollTick w st) = Some e \<longrightarrow>
        snapshot (fst (pollTick w st)) = snapshot st
      \<and> pollIteration w st =
          (fst (pollTick w st))
            \<lparr>logs := logs st @ [LogText ''Watcher poll failed'', LogError e],
             sleeps := sleeps st @ [scanIntervalMs st],
             running := running st \<and> \<not> stopCalled w\<rparr>
      \<and> snapshot (pollIteration w st) = snapshot st
      \<and> logs (pollIteration w st) = logs st @ [LogText ''Watcher poll failed'', LogError e]
      \<and> sleeps (pollIteration w st) = sleeps st @ [scanIntervalMs st]
      \<and> running (pollIteration w st) = (running st \<and> \<not> stopCalled w))
   \<and> (snd (pollTick w st) = None \<longrightarrow>
        pollIteration w st =
          (fst (pollTick w st))
            \<lparr>sleeps := sleeps st @ [scanIntervalMs st],
             running := running st \<and> \<not> stopCalled w\<rparr>
      \<and> (\<exists>files. storageFiles w = Inr files
           \<and> snapshot (fst (pollTick w st)) = scanSnapshot files
           \<and> snapshot (pollIteration w st) = scanSnapshot files)
      \<and> logs (pollIteration w st) = logs st
      \<and> sleeps (pollIteration w st) = sleeps st @ [scanIntervalMs st]
      \<and> running (pollIteration w st) = (running st \<and> \<not> stopCalled w))
   \<and> scanIntervalMs (pollIteration w st) = scanIntervalMs st
   \<and> pollLoop (w # ws) st = (if running st then pollLoop ws (pollIteration w st) else st)
   \<and> pollLoop [] st = st"
proof -
  obtain st1 thrown where p: "pollTick w st = (st1, thrown)" by (cases "pollTick w st")
  have fr: "scanIntervalMs st1 = scanIntervalMs st" "running st1 = running st"
    "logs st1 = logs st" "sleeps st1 = sleeps st"
    using pollTick_frame [of w st] p by simp_all
  have sn: "thrown \<noteq> None \<Longrightarrow> snapshot st1 = snapshot st"
    using pollTick_snapshot [of w st] p by auto
  have it: "pollIteration w st =
      (let st2 = (case thrown of
                   None \<Rightarrow> st1
                 | Some e \<Rightarrow> st1\<lparr>logs := logs st1 @ [LogText ''Watcher poll failed'', LogError e]\<rparr>);
           st3 = st2\<lparr>sleeps := sleeps st2 @ [scanIntervalMs st2]\<rparr>
       in if stopCalled w then st3\<lparr>running := False\<rparr> else st3)"
    using p by (simp add: pollIteration_def)
  have keepRunning: "\<And>x::engine. running x \<Longrightarrow> x\<lparr>running := True\<rparr> = x" by simp
  have a: "\<And>e. thrown = Some e \<Longrightarrow>
        snapshot st1 = snapshot st
      \<and> pollIteration w st =
          st1\<lparr>logs := logs st @ [LogText ''Watcher poll failed'', LogError e],
              sleeps := sleeps st @ [scanIntervalMs st],
              running := running st \<and> \<not> stopCalled w\<rparr>
      \<and> snapshot (pollIteration w st) = snapshot st
      \<and> logs (pollIteration w st) = logs st @ [LogText ''Watcher poll failed'', LogError e]
      \<and> sleeps (pollIteration w st) = sleeps st @ [scanIntervalMs st]
      \<and> running (pollIteration w st) = (running st \<and> \<not> stopCalled w)"
    using fr sn by (simp add: it Let_def)
  have b: "thrown = None \<Longrightarrow>
        pollIteration w st =
          st1\<lparr>sleeps := sleeps st @ [scanIntervalMs st],
              running := running st \<and> \<not> stopCalled w\<rparr>
      \<and> (\<exists>files. storageFiles w = Inr files
           \<and> snapshot st1 = scanSnapshot files
           \<and> snapshot (pollIteration w st) = scanSnapshot files)
      \<and> logs (pollIteration w st) = logs st
      \<and> sleeps (pollIteration w st) = sleeps st @ [scanIntervalMs st]
      \<and> running (pollIteration w st) = (running st \<and> \<not> stopCalled w)"
  proof -
    assume n: "thrown = None"
    have "\<exists>files. storageFiles w = Inr files \<and> snapshot st1 = scanSnapshot files"
      using pollTick_snapshot [of w st] p n by (cases "storageFiles w") (simp_all add: pollTick_def)
    then show ?thesis using fr n by (auto simp: it Let_def)
  qed
  have c: "scanIntervalMs (pollIteration w st) = scanIntervalMs st"
    using fr by (cases thrown) (simp_all add: it Let_def)
  from a have A: "\<forall>e. thrown = Some e \<longrightarrow>
        snapshot st1 = snapshot st
      \<and> pollIteration w st =
          st1\<lparr>logs := logs st @ [LogText ''Watcher poll failed'', LogError e],
              sleeps := sleeps st @ [scanIntervalMs st],
              running := running st \<and> \<not> stopCalled w\<rparr>
      \<and> snapshot (pollIteration w st) = snapshot st
      \<and> logs (pollIteration w st) = logs st @ [LogText ''Watcher poll failed'', LogError e]
      \<and> sleeps (pollIteration w st) = sleeps st @ [scanIntervalMs st]
      \<and> running (pollIteration w st) = (running st \<and> \<not> stopCalled w)" by blast
  from b have B: "thrown = None \<longrightarrow>
        pollIteration w st =
          st1\<lparr>sleeps := sleeps st @ [scanIntervalMs st],
              running := running st \<and> \<not> stopCalled w\<rparr>
      \<and> (\<exists>files. storageFiles w = Inr files
           \<and> snapshot st1 = scanSnapshot files
           \<and> snapshot (pollIteration w st) = scanSnapshot files)
      \<and> logs (pollIteration w st) = logs st
      \<and> sleeps (pollIteration w st) = sleeps st @ [scanIntervalMs st]
      \<and> running (pollIteration w st) = (running st \<and> \<not> stopCalled w)" by blast
  have L: "pollLoop (w # ws) st = (if running st then pollLoop ws (pollIteration w st) else st)"
    "pollLoop [] st = st" by simp_all
  from A B c L show ?thesis unfolding p fst_conv snd_conv by (intro conjI)
qed

theorem poll_failure_keeps_snapshot_witness:
  "snd (pollTick rejectingWorld twoKnownFiles) = Some (Error ''rejected'')
   \<and> snapshot (pollIteration rejectingWorld twoKnownFiles) = snapshot twoKnownFiles
   \<and> snapshot twoKnownFiles
       = [(''a.md'', \<lparr>mtimeMs = 5, fsize = 3\<rparr>), (''b.md'', \<lparr>mtimeMs = 6, fsize = 4\<rparr>)]
   \<and> logs (pollIteration rejectingWorld twoKnownFiles)
       = [LogText ''Watcher poll failed'', LogError (Error ''rejected'')]
   \<and> sleeps (pollIteration rejectingWorld twoKnownFiles) = [750]
   \<and> running (pollIteration rejectingWorld twoKnownFiles)
   \<and> snd (pollTick (calmWorld 750 [plainFile ''a.md'' 5 3])
             (pollIteration rejectingWorld twoKnownFiles)) = None
   \<and> pollLoop [rejectingWorld, calmWorld 750 [plainFile ''a.md'' 5 3]] twoKnownFiles
       = pollIteration (calmWorld 750 [plainFile ''a.md'' 5 3])
           (pollIteration rejectingWorld twoKnownFiles)
   \<and> snapshot (pollLoop [rejectingWorld, calmWorld 750 [plainFile ''a.md'' 5 3]] twoKnownFiles)
       = [(''a.md'', \<lparr>mtimeMs = 5, fsize = 3\<rparr>)]
   \<and> logs (pollLoop [rejectingWorld, calmWorld 750 [plainFile ''a.md'' 5 3]] twoKnownFiles)
       = [LogText ''Watcher poll failed'', LogError (Error ''rejected'')]
   \<and> sleeps (pollLoop [rejectingWorld, calmWorld 750 [plainFile ''a.md'' 5 3]] twoKnownFiles)
       = [750, 750]"
proof -
  let ?w2 = "calmWorld 750 [plainFile ''a.md'' 5 3]"
  let ?s1 = "pollIteration rejectingWorld twoKnownFiles"
  have e: "snd (pollTick rejectingWorld twoKnownFiles) = Some (Error ''rejected'')"
    by (simp add: eval_defs)
  have r: "running twoKnownFiles" "\<not> stopCalled rejectingWorld" "logs twoKnownFiles = []"
    "sleeps twoKnownFiles = []" "scanIntervalMs twoKnownFiles = 750" "\<not> stopCalled ?w2"
    "snapshot twoKnownFiles
       = [(''a.md'', \<lparr>mtimeMs = 5, fsize = 3\<rparr>), (''b.md'', \<lparr>mtimeMs = 6, fsize = 4\<rparr>)]"
    by (simp_all add: eval_defs)
  note A = poll_failure_keeps_snapshot [of rejectingWorld twoKnownFiles "[?w2]"]
  from A e r have 1: "snapshot ?s1 = snapshot twoKnownFiles"
    "logs ?s1 = [LogText ''Watcher poll failed'', LogError (Error ''rejected'')]"
    "sleeps ?s1 = [750]" "running ?s1"
    "pollLoop [rejectingWorld, ?w2] twoKnownFiles = pollLoop [?w2] ?s1"
    by simp_all
  from A r have i: "scanIntervalMs ?s1 = 750" by simp
  have n: "snd (pollTick ?w2 ?s1) = None"
    by (simp add: eval_defs)
  have f: "storageFiles ?w2 = Inr [plainFile ''a.md'' 5 3]"
    "scanSnapshot [plainFile ''a.md'' 5 3] = [(''a.md'', \<lparr>mtimeMs = 5, fsize = 3\<rparr>)]"
    by (simp_all add: calmWorld_def scanSnapshot_def plainFile_def)
  note B = poll_failure_keeps_snapshot [of ?w2 ?s1 "[]"]
  from B n f 1 i r(6) have 2: "snapshot (pollIteration ?w2 ?s1) = [(''a.md'', \<lparr>mtimeMs = 5, fsize = 3\<rparr>)]"
    "logs (pollIteration ?w2 ?s1) = [LogText ''Watcher poll failed'', LogError (Error ''rejected'')]"
    "sleeps (pollIteration ?w2 ?s1) = [750, 750]"
    "pollLoop [?w2] ?s1 = pollLoop [] (pollIteration ?w2 ?s1)"
    by auto
  from B have 3: "pollLoop [] (pollIteration ?w2 ?s1) = pollIteration ?w2 ?s1" by simp
  from e r(7) 1 n 2 3 show ?thesis by simp
qed

section \<open>The stabiliser: a pending path that vanishes\<close>




section \<open>The stabiliser: the hold on empty creations\<close>

text \<open>
  C2. The vault holds the empty file \<^verbatim>\<open>a/b.md\<close>, first seen at time 0; the storage is
  the adapter of the repository on a disk, and every check of the queue accepts. In the
  pass at 1500 ms nothing is queued for the file and it stays pending as CREATE, as the
  claim says: the hold of 15000 ms applies. When the vault also holds a file of 4 bytes
  named \<^verbatim>\<open>a\b.md\<close>, the same pass queues a CREATE event of size 0 for the path
  \<^verbatim>\<open>a/b.md\<close> while that path is still held: the pending write of \<^verbatim>\<open>a\b.md\<close> is stable
  and not empty, and the stub that \<^verbatim>\<open>getFileStub\<close> returns for it is the stub of
  \<^verbatim>\<open>a/b.md\<close>.
\<close>

theorem held_path_gets_early_create:
  "map_option (\<lambda>st. (map itemSummary (bufferedQueuedItems st), pendingWrites st))
     (pollLoopOn table_api [(aliasDisk, calmWorld 0 []), (aliasDisk, calmWorld 1500 [])] watching)
     = Some ([(CREATE, ''a/b.md'', 0)],
             [(''a/b.md'', \<lparr>kind = KCREATE, lastMtimeMs = 6, lastSize = 0,
                             lastChangeAt = 0, firstSeenAt = 0\<rparr>)])
   \<and> map_option (\<lambda>st. (map itemSummary (bufferedQueuedItems st), pendingWrites st))
       (pollLoopOn table_api
          [(emptyFileDisk, calmWorld 0 []), (emptyFileDisk, calmWorld 1500 [])] watching)
       = Some ([],
               [(''a/b.md'', \<lparr>kind = KCREATE, lastMtimeMs = 6, lastSize = 0,
                               lastChangeAt = 0, firstSeenAt = 0\<rparr>)])
   \<and> map_option (\<lambda>st. (map itemSummary (bufferedQueuedItems st), pendingWrites st))
       (pollLoopOn table_api [(aliasDisk, calmWorld 0 [])] watching)
       = Some ([],
               [(backslashName, \<lparr>kind = KCREATE, lastMtimeMs = 5, lastSize = 4,
                                  lastChangeAt = 0, firstSeenAt = 0\<rparr>),
                (''a/b.md'', \<lparr>kind = KCREATE, lastMtimeMs = 6, lastSize = 0,
                               lastChangeAt = 0, firstSeenAt = 0\<rparr>)])
   \<and> map_option (map_sum id (map (\<lambda>f. (path f, size (stat f)))))
       (getFiles table_api vault_access aliasDisk)
       = Some (Inr [(backslashName, 4), (''a/b.md'', 0)])
   \<and> map_sum id (map_option (\<lambda>f. (path f, size (stat f))))
       (getFileStub table_api vault_access aliasDisk backslashName)
       = Inr (Some (''a/b.md'', 0))"
  by code_simp

section \<open>The stabiliser: a file written twice\<close>

text \<open>
  C1. A file is written with 3 bytes before pass T and rewritten with 4 bytes before pass
  T+1, then left alone; the passes are 750 ms apart, every check of the queue accepts,
  and the storage is the adapter of the repository on a disk. Under the name \<^verbatim>\<open>ab.md\<close>
  the watcher does what the claim says: nothing is queued in the pass 750 ms after the
  rewrite was seen, and exactly one event, a CREATE of size 4, is queued in the pass
  1500 ms after it, where the pending write ends. Under the name \<^verbatim>\<open>a\b.md\<close> nothing is
  queued at all: the walk lists the file under its name as it stands, the flush asks
  \<^verbatim>\<open>getFileStub\<close> for that path, which normalises it to \<^verbatim>\<open>a/b.md\<close> and finds nothing
  there, and the pending write is dropped; the snapshot then holds the file, so that no
  later pass sees a difference.
\<close>

theorem backslash_file_gets_no_event:
  "map_option (\<lambda>st. (map itemSummary (bufferedQueuedItems st), pendingWrites st, snapshot st))
     (pollLoopOn table_api
        [(oneFileDisk backslashName 3 5, calmWorld 0 []),
         (oneFileDisk backslashName 4 6, calmWorld 750 []),
         (oneFileDisk backslashName 4 6, calmWorld 1500 []),
         (oneFileDisk backslashName 4 6, calmWorld 2250 []),
         (oneFileDisk backslashName 4 6, calmWorld 3000 [])] watching)
     = Some ([], [], [(backslashName, \<lparr>mtimeMs = 6, fsize = 4\<rparr>)])
   \<and> map_option (\<lambda>st. (map itemSummary (bufferedQueuedItems st), pendingWrites st, snapshot st))
       (pollLoopOn table_api
          [(oneFileDisk ''ab.md'' 3 5, calmWorld 0 []),
           (oneFileDisk ''ab.md'' 4 6, calmWorld 750 []),
           (oneFileDisk ''ab.md'' 4 6, calmWorld 1500 []),
           (oneFileDisk ''ab.md'' 4 6, calmWorld 2250 []),
           (oneFileDisk ''ab.md'' 4 6, calmWorld 3000 [])] watching)
       = Some ([(CREATE, ''ab.md'', 4)], [], [(''ab.md'', \<lparr>mtimeMs = 6, fsize = 4\<rparr>)])
   \<and> map_option (\<lambda>st. (map itemSummary (bufferedQueuedItems st), pendingWrites st))
       (pollLoopOn table_api
          [(oneFileDisk ''ab.md'' 3 5, calmWorld 0 []),
           (oneFileDisk ''ab.md'' 4 6, calmWorld 750 []),
           (oneFileDisk ''ab.md'' 4 6, calmWorld 1500 [])] watching)
       = Some ([], [(''ab.md'', \<lparr>kind = KCREATE, lastMtimeMs = 6, lastSize = 4,
                                  lastChangeAt = 750, firstSeenAt = 0\<rparr>)])
   \<and> map_option (\<lambda>st. (map itemSummary (bufferedQueuedItems st), pendingWrites st))
       (pollLoopOn table_api
          [(oneFileDisk backslashName 3 5, calmWorld 0 []),
           (oneFileDisk backslashName 4 6, calmWorld 750 []),
           (oneFileDisk backslashName 4 6, calmWorld 1500 [])] watching)
       = Some ([], [(backslashName, \<lparr>kind = KCREATE, lastMtimeMs = 6, lastSize = 4,
                                       lastChangeAt = 750, firstSeenAt = 0\<rparr>)])
   \<and> map_option (map_sum id (map (\<lambda>f. (path f, size (stat f)))))
       (getFiles table_api vault_access (oneFileDisk backslashName 4 6))
       = Some (Inr [(backslashName, 4)])
   \<and> getFileStub table_api vault_access (oneFileDisk backslashName 4 6) backslashName = Inr None
   \<and> normalizeVaultRelative backslashName = ''a/b.md''"
  by code_simp

section \<open>The queue: events for a path the system has just written\<close>

text \<open>
  C5. Let the adapter have marked the path as touched at time \<open>t\<close> (a stamp other than 0,
  which \<^verbatim>\<open>recentlyTouched\<close> reads as no stamp). While the clock read by the check is less
  than 5000 ms after \<open>t\<close>, no CREATE or CHANGED item for the path is enqueued, neither by
  \<open>appendQueue\<close> on any batch nor by a whole pass of the poll loop. From 5000 ms on, a
  CREATE or CHANGED event for the path that passes the other checks is enqueued as usual.
  The marker plays no part in detection: the pending table, the snapshot and the outcome
  of a pass are the same with the marker as without it.
\<close>

theorem touched_suppression:
  assumes "storage w = touched fa t p" "t \<noteq> 0"
  shows "(dateNow w (TouchCheck p) - t < 5000 \<longrightarrow>
            changeItemsFor p (fst (appendQueue w params st)) = changeItemsFor p st
          \<and> changeItemsFor p (fst (pollTick w st)) = changeItemsFor p st)
     \<and> (\<forall>ev. (event_type ev = CREATE \<or> event_type ev = CHANGED) \<and> path (event_file ev) = p
             \<and> 5000 \<le> dateNow w (TouchCheck p) - t
             \<and> isConfigured w \<and> \<not> suspendFileWatching w \<and> \<not> shouldBeIgnored w p
             \<and> \<not> isFileSizeTooLarge w (size (stat (event_file ev)))
             \<and> isTargetFile w p = Inr True
           \<longrightarrow> appendQueue w [ev] st
                 = (enqueue (toItem ev) (st\<lparr>fileListMarks := Suc (fileListMarks st)\<rparr>), None))
     \<and> pendingWrites (fst (pollTick w st)) = pendingWrites (fst (pollTick (w\<lparr>storage := fa\<rparr>) st))
     \<and> snapshot (fst (pollTick w st)) = snapshot (fst (pollTick (w\<lparr>storage := fa\<rparr>) st))
     \<and> snd (pollTick w st) = snd (pollTick (w\<lparr>storage := fa\<rparr>) st)"
proof -
  have rt: "recentlyTouched (storage w) (dateNow w (TouchCheck p)) p
      \<longleftrightarrow> dateNow w (TouchCheck p) - t < 5000"
    using assms by (simp add: touched_recent)
  have a: "dateNow w (TouchCheck p) - t < 5000 \<Longrightarrow>
      changeItemsFor p (fst (appendQueue w params st)) = changeItemsFor p st
          \<and> changeItemsFor p (fst (pollTick w st)) = changeItemsFor p st"
    using rt appendQueue_suppressed [of w p params st] pollTick_suppressed [of w p st]
    by (simp add: changeItemsFor_def)
  have b: "\<And>ev. (event_type ev = CREATE \<or> event_type ev = CHANGED) \<and> path (event_file ev) = p
             \<and> 5000 \<le> dateNow w (TouchCheck p) - t
             \<and> isConfigured w \<and> \<not> suspendFileWatching w \<and> \<not> shouldBeIgnored w p
             \<and> \<not> isFileSizeTooLarge w (size (stat (event_file ev)))
             \<and> isTargetFile w p = Inr True
           \<Longrightarrow> appendQueue w [ev] st
                 = (enqueue (toItem ev) (st\<lparr>fileListMarks := Suc (fileListMarks st)\<rparr>), None)"
    using rt by (auto simp: appendQueue_def)
  have c: "pendingWrites (fst (pollTick w st)) = pendingWrites (fst (pollTick (w\<lparr>storage := fa\<rparr>) st))
     \<and> snapshot (fst (pollTick w st)) = snapshot (fst (pollTick (w\<lparr>storage := fa\<rparr>) st))
     \<and> snd (pollTick w st) = snd (pollTick (w\<lparr>storage := fa\<rparr>) st)"
    using pollTick_storage_free [where w=w and fa=fa and st=st] by simp
  from a b c show ?thesis by blast
qed

theorem touched_suppression_witness:
  "bufferedQueuedItems (fst (appendQueue (touchedWorld 5999) [createdAgain] watching)) = []
   \<and> dateNow (touchedWorld 5999) (TouchCheck ''a.md'') - 1000 < 5000
   \<and> bufferedQueuedItems (fst (appendQueue (touchedWorld 6000) [createdAgain] watching))
       = [toItem createdAgain]
   \<and> 5000 \<le> dateNow (touchedWorld 6000) (TouchCheck ''a.md'') - 1000
   \<and> map_get (pendingWrites (fst (pollTick (touchedWorld 5999) watching))) ''a.md''
       = Some \<lparr>kind = KCREATE, lastMtimeMs = 5, lastSize = 3, lastChangeAt = 5999,
               firstSeenAt = 5999\<rparr>"
proof -
  have s: "\<And>n. storage (touchedWorld n) = touched vault_access 1000 ''a.md''"
    by (simp add: touchedWorld_def)
  have n: "(1000::int) \<noteq> 0" by simp
  note T = touched_suppression [OF s n]
  have e: "changeItemsFor ''a.md'' watching = []" "bufferedQueuedItems watching = []"
    by (simp_all add: changeItemsFor_def watching_def newEngine_def)
  have w: "dateNow (touchedWorld 5999) (TouchCheck ''a.md'') - 1000 < 5000"
    by (simp add: touchedWorld_def calmWorld_def)
  from T [of 5999 "[createdAgain]" watching, THEN conjunct1] w e
  have c: "changeItemsFor ''a.md'' (fst (appendQueue (touchedWorld 5999) [createdAgain] watching)) = []"
    by simp
  have sub: "set (bufferedQueuedItems (fst (appendQueue (touchedWorld 5999) [createdAgain] watching)))
      \<subseteq> {toItem createdAgain}"
    using appendQueue_single_items [of "touchedWorld 5999" createdAgain watching] e(2) by auto
  have 1: "bufferedQueuedItems (fst (appendQueue (touchedWorld 5999) [createdAgain] watching)) = []"
  proof (rule ccontr)
    assume "bufferedQueuedItems (fst (appendQueue (touchedWorld 5999) [createdAgain] watching)) \<noteq> []"
    then obtain i where i: "i \<in> set (bufferedQueuedItems
        (fst (appendQueue (touchedWorld 5999) [createdAgain] watching)))"
      by (meson last_in_set)
    with sub have "i = toItem createdAgain" by auto
    with i have "i \<in> set (changeItemsFor ''a.md''
        (fst (appendQueue (touchedWorld 5999) [createdAgain] watching)))"
      by (simp add: changeItemsFor_def toItem_def createdAgain_def plainFile_def)
    with c show False by simp
  qed
  have w2: "5000 \<le> dateNow (touchedWorld 6000) (TouchCheck ''a.md'') - 1000"
    by (simp add: touchedWorld_def calmWorld_def)
  from T [of 6000 "[]" watching, THEN conjunct2, THEN conjunct1, THEN spec, of createdAgain] w2
  have 2: "appendQueue (touchedWorld 6000) [createdAgain] watching
      = (enqueue (toItem createdAgain) (watching\<lparr>fileListMarks := Suc (fileListMarks watching)\<rparr>),
         None)"
    by (simp add: createdAgain_def plainFile_def touchedWorld_def calmWorld_def)
  have ws: "\<And>n. (touchedWorld n)\<lparr>storage := vault_access\<rparr> = calmWorld n [plainFile ''a.md'' 5 3]"
    by (simp add: touchedWorld_def calmWorld_def)
  from T [of 5999 "[]" watching, THEN conjunct2, THEN conjunct2, THEN conjunct1]
  have 3: "map_get (pendingWrites (fst (pollTick (touchedWorld 5999) watching))) ''a.md''
       = Some \<lparr>kind = KCREATE, lastMtimeMs = 5, lastSize = 3, lastChangeAt = 5999,
               firstSeenAt = 5999\<rparr>"
    unfolding ws by (simp add: eval_defs)
  from 1 2 3 w w2 e show ?thesis by (simp add: enqueue_def)
qed

section \<open>The storage adapter: names in the trash\<close>

text \<open>
  C6, as stated, fails. The name depends on the path and on the millisecond read from the
  clock through eight hexadecimal digits of a digest, so two calls for one path can get
  one name: always when both read the same millisecond, and also for different readings.
  For \<^verbatim>\<open>notes/n4785.md\<close> the readings 1700000000537 and 1700000000917, 380 ms apart,
  give the same name; trashed at the first, written again and trashed at the second, the
  file of the second call replaces that of the first in the trash.
\<close>

theorem trash_names_collide:
  "trashName table_api ''notes/n4785.md'' 1700000000537 = ''notes__n4785.md.c32e87f1''
   \<and> trashName table_api ''notes/n4785.md'' 1700000000917 = ''notes__n4785.md.c32e87f1''
   \<and> trash_node table_api vault_access [(''/vault/notes/n4785.md'', noteFile 7)]
         ''notes/n4785.md'' 1700000000537
       = Inr [(''/data/trash/notes__n4785.md.c32e87f1'', noteFile 7)]
   \<and> trash_node table_api vault_access
         [(''/vault/notes/n4785.md'', noteFile 9),
          (''/data/trash/notes__n4785.md.c32e87f1'', noteFile 7)]
         ''notes/n4785.md'' 1700000000917
       = Inr [(''/data/trash/notes__n4785.md.c32e87f1'', noteFile 9)]"
  by (simp add: trashName_first trashName_second trash_node_def table_api_fields abs_path_def
      normalize_note vault_access_def)

text \<open>
  C6, amended. The name in the trash is the path with each slash replaced by two
  underscores, a dot, and the first eight hexadecimal digits of the SHA-1 of the path, a
  colon and the clock reading in decimal. Two calls for the same path get different names
  exactly when those eight digits differ. Once the trash directory is made, a rename that
  succeeds is the whole effect; a rename that fails is answered by \<open>delete\<close> with
  \<open>force\<close> set, which does not throw.
\<close>

theorem trash_destination:
  "trashName api rel now =
       concat (map (\<lambda>c. if c = CHR ''/'' then ''__'' else [c]) rel) @ ''.''
         @ take 8 (sha1_hex api (rel @ '':'' @ decimal now))
   \<and> ((trashName api rel t1 = trashName api rel t2)
        = (take 8 (sha1_hex api (rel @ '':'' @ decimal t1))
             = take 8 (sha1_hex api (rel @ '':'' @ decimal t2))))
   \<and> (\<forall>d1. fs_mkdir api disk (trashDir fa) = Inr d1 \<longrightarrow>
          (\<forall>d2. fs_rename api d1 (abs_path api fa (normalizeVaultRelative fl))
                   (path_join api (trashDir fa)
                      (trashName api (normalizeVaultRelative fl) now)) = Inr d2
                 \<longrightarrow> trash_node api fa disk fl now = Inr d2)
        \<and> (\<forall>e. fs_rename api d1 (abs_path api fa (normalizeVaultRelative fl))
                   (path_join api (trashDir fa)
                      (trashName api (normalizeVaultRelative fl) now)) = Inl e
                 \<longrightarrow> trash_node api fa disk fl now
                       = delete_node api fa d1 (normalizeVaultRelative fl) True
                   \<and> (\<exists>d. trash_node api fa disk fl now = Inr d)))"
proof -
  have del: "\<And>d r. \<exists>d'. delete_node api fa d r True = Inr d'"
    by (auto simp: delete_node_def Let_def split: sum.splits)
  show ?thesis
    using del by (auto simp: trashName_def trash_node_def Let_def)
qed

theorem trash_destination_witness:
  "trash_node table_api vault_access [] ''gone.md'' 1700000000537 = Inr []
   \<and> fs_rename table_api [] (abs_path table_api vault_access (normalizeVaultRelative ''gone.md''))
        (path_join table_api (trashDir vault_access)
           (trashName table_api (normalizeVaultRelative ''gone.md'') 1700000000537)) = Inl ENOENT
   \<and> delete_node table_api vault_access [] ''gone.md'' True = Inr []
   \<and> delete_node table_api vault_access [] ''gone.md'' False = Inl (Error ''File not found: gone.md'')
   \<and> trashName table_api ''notes/n4785.md'' 1700000000537
       = trashName table_api ''notes/n4785.md'' 1700000000917"
proof -
  have n: "normalizeVaultRelative ''gone.md'' = ''gone.md''"
    by (simp add: normalizeVaultRelative_def)
  have m: "fs_mkdir table_api [] (trashDir vault_access) = Inr []" by (simp add: table_api_fields)
  have r: "fs_rename table_api [] (abs_path table_api vault_access (normalizeVaultRelative ''gone.md''))
        (path_join table_api (trashDir vault_access)
           (trashName table_api (normalizeVaultRelative ''gone.md'') 1700000000537)) = Inl ENOENT"
    by (simp add: table_api_fields)
  have d: "delete_node table_api vault_access [] ''gone.md'' True = Inr []"
    "delete_node table_api vault_access [] ''gone.md'' False = Inl (Error ''File not found: gone.md'')"
    by (simp_all add: delete_node_def table_api_fields n abs_path_def)
  note T = trash_destination [where api=table_api and disk="[]" and fa=vault_access
      and fl="''gone.md''" and now=1700000000537]
  from T [THEN conjunct2, THEN conjunct2, THEN spec, of "[]"] m r d n
  have 1: "trash_node table_api vault_access [] ''gone.md'' 1700000000537 = Inr []"
    by simp
  have h: "take 8 (sha1_hex table_api (''notes/n4785.md'' @ '':'' @ decimal 1700000000537))
      = take 8 (sha1_hex table_api (''notes/n4785.md'' @ '':'' @ decimal 1700000000917))"
    by code_simp
  from trash_destination [where api=table_api and rel="''notes/n4785.md''"
      and ?t1.0=1700000000537 and ?t2.0=1700000000917, THEN conjunct2, THEN conjunct1] h
  have 2: "trashName table_api ''notes/n4785.md'' 1700000000537
       = trashName table_api ''notes/n4785.md'' 1700000000917" by simp
  from 1 2 r d show ?thesis by simp
qed

section \<open>The dispatch loop: five at a time, and the idle barrier\<close>



section \<open>The dispatch loop: one path, one call at a time\<close>



end
